theory Spec2Isabelle
  imports Complex_Main
begin

section \<open>Python values, errors and library capabilities\<close>

text \<open>
  Python floats are modelled as exact reals, Python ints as \<open>int\<close> or \<open>nat\<close>, and Python
  strings as ASCII \<open>string\<close>s. An exception that leaves a function is the \<open>Inl\<close> branch of
  its result.
\<close>

datatype error = AttributeError | TypeError | ValueError | OverflowError

datatype pyval = Num real | Flag bool | Str string | NoneVal

type_synonym fmap = "string \<rightharpoonup> pyval"

definition bind_err :: "error + 'a \<Rightarrow> ('a \<Rightarrow> error + 'b) \<Rightarrow> error + 'b" where
  "bind_err r f = (case r of Inl e \<Rightarrow> Inl e | Inr x \<Rightarrow> f x)"

text \<open>Truthiness of a value fetched with \<open>dict.get\<close> (an absent key gives \<open>None\<close>).\<close>

fun truthy :: "pyval option \<Rightarrow> bool" where
  "truthy None = False"
| "truthy (Some (Num x)) = (x \<noteq> 0)"
| "truthy (Some (Flag b)) = b"
| "truthy (Some (Str s)) = (s \<noteq> [])"
| "truthy (Some NoneVal) = False"

text \<open>
  A \<open>datetime\<close>: the wall-clock fields as microseconds since midnight of day one, and for a
  timezone-aware value its UTC offset in microseconds.
\<close>

datatype datetime = Naive int | Aware int int

fun wall :: "datetime \<Rightarrow> int" where
  "wall (Naive w) = w"
| "wall (Aware w off) = w"

fun instant :: "datetime \<Rightarrow> int" where
  "instant (Naive w) = w"
| "instant (Aware w off) = w - off"

fun is_aware :: "datetime \<Rightarrow> bool" where
  "is_aware (Naive w) = False"
| "is_aware (Aware w off) = True"

definition usec_per_second :: int where
  "usec_per_second = 1000000"

definition usec_per_day :: int where
  "usec_per_day = 86400 * usec_per_second"

definition hour_of :: "datetime \<Rightarrow> nat" where
  "hour_of dt = nat ((wall dt div (3600 * usec_per_second)) mod 24)"

text \<open>\<open>(a - b).days\<close> for two naive datetimes: the timedelta is normalised, so the day count is
  the floor.\<close>

definition days_between :: "int \<Rightarrow> int \<Rightarrow> int" where
  "days_between now_wall then_wall = (now_wall - then_wall) div usec_per_day"

text \<open>
  The wall clock of \<open>datetime.max\<close>, the last microsecond of 9999-12-31 (day 3652059), and
  \<open>datetime + timedelta\<close> for a positive timedelta: the sum is taken on the wall-clock fields,
  keeps the timezone, and raises \<open>OverflowError\<close> when it lies after \<open>datetime.max\<close>.
\<close>

definition datetime_max_wall :: int where
  "datetime_max_wall = 3652059 * usec_per_day - 1"

definition add_timedelta :: "datetime \<Rightarrow> int \<Rightarrow> error + datetime" where
  "add_timedelta dt delta =
     (if datetime_max_wall < wall dt + delta then Inl OverflowError
      else Inr (case dt of Naive w \<Rightarrow> Naive (w + delta) | Aware w off \<Rightarrow> Aware (w + delta) off))"

text \<open>\<open>a <= b\<close> for two datetimes that are both naive or both aware.\<close>

definition datetime_le :: "datetime \<Rightarrow> datetime \<Rightarrow> bool" where
  "datetime_le a b = (instant a \<le> instant b)"

text \<open>
  The library functions the code calls and that are not part of the repository. Every
  theorem below holds for any such functions; the parsing functions return \<open>None\<close> where
  the library raises \<open>ValueError\<close>. \<open>md5\<close> is the digest of the encoded string as a number,
  \<open>random_after_seed\<close> the first \<open>random.random()\<close> after \<open>random.seed\<close>, and regular
  expressions are named by their position in the source's pattern lists.
\<close>

record pylib =
  strptime :: "string \<Rightarrow> string \<Rightarrow> int option"
  fromtimestamp :: "real \<Rightarrow> int option"
  fromisoformat :: "string \<Rightarrow> datetime option"
  md5 :: "string \<Rightarrow> nat"
  random_after_seed :: "nat \<Rightarrow> real"
  spam_search :: "nat \<Rightarrow> string \<Rightarrow> bool"
  default_search :: "nat \<Rightarrow> string \<Rightarrow> bool"

section \<open>The profile record\<close>

datatype stamp = StampNum real | StampStr string

record post_fields =
  post_text :: "string option"
  post_caption :: "string option"
  post_timestamp :: "stamp option"
  post_likes :: "int option"
  post_comments :: "int option"
  post_shares :: "int option"
  post_retweets :: "int option"
  post_is_retweet :: bool
  post_source :: "string option option"

datatype post = PostDict post_fields | PostStr string

datatype user_id = IdStr string | IdInt int

record user_fields =
  uf_id :: "user_id option"
  uf_user_id :: "user_id option"
  uf_username :: "user_id option"

datatype user = UserDict user_fields | UserStr string | UserOther

record profile =
  pd_username :: "string option"
  pd_platform :: "string option"
  pd_creation_date :: "string option"
  pd_bio :: "string option"
  pd_profile_pic_url :: "string option"
  pd_followers_count :: "int option"
  pd_friend_count :: "int option"
  pd_following_count :: "int option"
  pd_post_count :: "int option"
  pd_posts :: "post list"
  pd_followers :: "user list"
  pd_following :: "user list"
  pd_interactions :: "user list"
  pd_extras :: "string \<rightharpoonup> pyval"

section \<open>String operations\<close>

definition is_space :: "char \<Rightarrow> bool" where
  "is_space c = (let n = (of_char c :: nat) in (9 \<le> n \<and> n \<le> 13) \<or> (28 \<le> n \<and> n \<le> 32))"

definition is_digit :: "char \<Rightarrow> bool" where
  "is_digit c = (let n = (of_char c :: nat) in 48 \<le> n \<and> n \<le> 57)"

definition is_punctuation :: "char \<Rightarrow> bool" where
  "is_punctuation c = (let n = (of_char c :: nat) in
     (33 \<le> n \<and> n \<le> 47) \<or> (58 \<le> n \<and> n \<le> 64) \<or> (91 \<le> n \<and> n \<le> 96) \<or> (123 \<le> n \<and> n \<le> 126))"

definition lower_char :: "char \<Rightarrow> char" where
  "lower_char c = (let n = (of_char c :: nat) in if 65 \<le> n \<and> n \<le> 90 then char_of (n + 32) else c)"

definition lower :: "string \<Rightarrow> string" where
  "lower s = map lower_char s"

definition strip_nonempty :: "string \<Rightarrow> bool" where
  "strip_nonempty s = (\<exists>c \<in> set s. \<not> is_space c)"

fun split_acc :: "string \<Rightarrow> string \<Rightarrow> string list" where
  "split_acc cur [] = (if cur = [] then [] else [rev cur])"
| "split_acc cur (c # cs) =
     (if is_space c then (if cur = [] then split_acc [] cs else rev cur # split_acc [] cs)
      else split_acc (c # cur) cs)"

definition split_ws :: "string \<Rightarrow> string list" where
  "split_ws s = split_acc [] s"

fun is_prefix :: "string \<Rightarrow> string \<Rightarrow> bool" where
  "is_prefix [] s = True"
| "is_prefix (p # ps) [] = False"
| "is_prefix (p # ps) (c # cs) = (p = c \<and> is_prefix ps cs)"

fun contains :: "string \<Rightarrow> string \<Rightarrow> bool" where
  "contains sub [] = (sub = [])"
| "contains sub (c # cs) = (is_prefix sub (c # cs) \<or> contains sub cs)"

text \<open>\<open>str.count\<close> of a character and of a two-character string (non-overlapping).\<close>

definition count_char :: "char \<Rightarrow> string \<Rightarrow> nat" where
  "count_char ch s = length (filter (\<lambda>c. c = ch) s)"

fun count_pair :: "char \<Rightarrow> char \<Rightarrow> string \<Rightarrow> nat" where
  "count_pair a b (c # d # cs) =
     (if c = a \<and> d = b then Suc (count_pair a b cs) else count_pair a b (d # cs))"
| "count_pair a b cs = 0"

section \<open>ContentAnalyzer\<close>

definition tokenize :: "string \<Rightarrow> string list" where
  "tokenize txt = filter (\<lambda>word. word \<noteq> []) (split_ws (filter (\<lambda>c. \<not> is_punctuation c) txt))"

definition positive_words :: "string list" where
  "positive_words =
    [''good'', ''great'', ''excellent'', ''amazing'', ''wonderful'', ''best'',
     ''love'', ''happy'', ''awesome'', ''nice'', ''fantastic'', ''beautiful'',
     ''perfect'', ''enjoy'', ''thanks'', ''thank'', ''appreciated'', ''like'',
     ''excited'', ''glad'', ''pleased'', ''impressive'', ''impressive'', ''well'']"

definition negative_words :: "string list" where
  "negative_words =
    [''bad'', ''terrible'', ''awful'', ''horrible'', ''worst'', ''hate'',
     ''dislike'', ''poor'', ''disappointed'', ''disappointing'', ''sucks'',
     ''suck'', ''sad'', ''angry'', ''upset'', ''unfortunate'', ''wrong'',
     ''never'', ''problem'', ''issue'', ''fail'', ''failed'', ''failure'']"

definition suspicious_keywords :: "string list" where
  "suspicious_keywords =
    [''money'', ''cash'', ''earn'', ''income'', ''rich'', ''wealthy'', ''profit'',
     ''investment'', ''invest'', ''bitcoin'', ''crypto'', ''cryptocurrency'',
     ''forex'', ''trading'', ''trader'', ''stocks'', ''bitcoin'', ''btc'', ''eth'',
     ''offer'', ''free'', ''discount'', ''deal'', ''promo'', ''promotion'',
     ''limited'', ''exclusive'', ''opportunity'', ''chance'', ''lifetime'',
     ''job'', ''career'', ''hiring'', ''remote'', ''work'', ''home'', ''online'',
     ''passive'', ''income'', ''salary'', ''payday'', ''loan'', ''loans'',
     ''hot'', ''sexy'', ''dating'', ''date'', ''single'', ''chat'', ''meet'',
     ''hookup'', ''adult'', ''cam'', ''webcam'', ''girl'', ''girls'', ''boys'',
     ''click'', ''tap'', ''join'', ''register'', ''sign'', ''subscribe'',
     ''follow'', ''dm'', ''pm'', ''message'', ''contact'', ''link'', ''bio'',
     ''weight'', ''loss'', ''diet'', ''slim'', ''fat'', ''burn'', ''health'',
     ''pill'', ''supplement'', ''vitamin'', ''detox'', ''cleanse'', ''inches'',
     ''urgent'', ''hurry'', ''quick'', ''fast'', ''immediately'', ''now'',
     ''today'', ''tonight'', ''soon'', ''limited'', ''act'', ''action'']"

text \<open>The sixteen compiled spam patterns of the constructor, by position.\<close>

definition spam_patterns :: "nat list" where
  "spam_patterns = [0 ..< 16]"

text \<open>The loop of \<open>_analyze_sentiment\<close>: both counters are carried through the texts.\<close>

fun sentiment_counts :: "string list \<Rightarrow> nat \<times> nat \<Rightarrow> nat \<times> nat" where
  "sentiment_counts [] (positive_count, negative_count) = (positive_count, negative_count)"
| "sentiment_counts (txt # texts) (positive_count, negative_count) =
     (let words = tokenize (lower txt) in
      sentiment_counts texts
        (positive_count + length (filter (\<lambda>word. word \<in> set positive_words) words),
         negative_count + length (filter (\<lambda>word. word \<in> set negative_words) words)))"

definition analyze_sentiment :: "string list \<Rightarrow> real" where
  "analyze_sentiment texts =
     (case sentiment_counts texts (0, 0) of (positive_count, negative_count) \<Rightarrow>
        let total = positive_count + negative_count in
        if total = 0 then 0.5
        else 0.5 + real_of_int (int positive_count - int negative_count) / real (2 * total))"

definition calculate_content_diversity :: "string list \<Rightarrow> real" where
  "calculate_content_diversity texts =
     (if texts = [] then 1.0
      else let all_tokens = concat (map (\<lambda>txt. tokenize (lower txt)) texts) in
        if all_tokens = [] then 1.0
        else let unique_tokens = length (remdups all_tokens);
                 total_tokens = length all_tokens;
                 ttr = real unique_tokens / real total_tokens
             in ttr * (1 - 0.5 * (1 / (1 + real (length texts)))))"

definition detect_spam_patterns :: "pylib \<Rightarrow> string list \<Rightarrow> nat" where
  "detect_spam_patterns lib texts =
     sum_list (map (\<lambda>txt. length (filter (\<lambda>pat. spam_search lib pat txt) spam_patterns)) texts)"

definition count_suspicious_keywords :: "string list \<Rightarrow> nat" where
  "count_suspicious_keywords texts =
     sum_list (map (\<lambda>txt. length (filter (\<lambda>word. word \<in> set suspicious_keywords)
                                   (remdups (tokenize (lower txt))))) texts)"

definition calculate_suspicious_score :: "real \<Rightarrow> real \<Rightarrow> nat \<Rightarrow> real \<Rightarrow> nat \<Rightarrow> real" where
  "calculate_suspicious_score sentiment_score content_diversity spam_matches keyword_ratio post_count =
     (let sentiment_factor = 2 * \<bar>sentiment_score - 0.5\<bar>;
          diversity_factor = 1 - content_diversity;
          spam_factor = (if post_count > 0 then min 1.0 (real spam_matches / real post_count) else 0)
      in 0.1 * sentiment_factor + 0.35 * diversity_factor + 0.35 * spam_factor
         + 0.2 * min 1.0 (keyword_ratio * 10))"

fun post_text_content :: "post \<Rightarrow> string" where
  "post_text_content (PostDict d) = (case post_text d of None \<Rightarrow> [] | Some t \<Rightarrow> t)"
| "post_text_content (PostStr s) = s"

definition content_defaults :: fmap where
  "content_defaults = map_of
     [(''content_analysis_performed'', Flag False),
      (''sentiment_score'', Num 0.5),
      (''content_diversity'', Num 1.0),
      (''suspicious_content_score'', Num 0.0),
      (''spam_pattern_matches'', Num 0)]"

definition content_analyze :: "pylib \<Rightarrow> profile \<Rightarrow> fmap" where
  "content_analyze lib profile_data =
     (if pd_posts profile_data = [] then content_defaults
      else let post_texts = filter strip_nonempty (map post_text_content (pd_posts profile_data)) in
        if post_texts = [] then content_defaults
        else let sentiment_score = analyze_sentiment post_texts;
                 content_diversity = calculate_content_diversity post_texts;
                 spam_pattern_matches = detect_spam_patterns lib post_texts;
                 suspicious_keywords_count = count_suspicious_keywords post_texts;
                 total_words = sum_list (map (\<lambda>txt. length (tokenize txt)) post_texts);
                 keyword_ratio = (if total_words > 0
                                  then real suspicious_keywords_count / real total_words else 0);
                 suspicious_content_score = calculate_suspicious_score sentiment_score
                    content_diversity spam_pattern_matches keyword_ratio (length post_texts)
             in map_of
               [(''content_analysis_performed'', Flag True),
                (''sentiment_score'', Num sentiment_score),
                (''content_diversity'', Num content_diversity),
                (''suspicious_content_score'', Num suspicious_content_score),
                (''spam_pattern_matches'', Num (real spam_pattern_matches)),
                (''suspicious_keywords_count'', Num (real suspicious_keywords_count)),
                (''keyword_ratio'', Num keyword_ratio)])"

section \<open>NetworkAnalyzer\<close>

definition digit_char :: "nat \<Rightarrow> char" where
  "digit_char d = char_of (48 + d)"

fun str_nat :: "nat \<Rightarrow> string" where
  "str_nat n = (if n < 10 then [digit_char n] else str_nat (n div 10) @ [digit_char (n mod 10)])"

declare str_nat.simps [simp del]

definition str_int :: "int \<Rightarrow> string" where
  "str_int i = (if i < 0 then CHR ''-'' # str_nat (nat (- i)) else str_nat (nat i))"

fun id_truthy :: "user_id option \<Rightarrow> bool" where
  "id_truthy None = False"
| "id_truthy (Some (IdStr s)) = (s \<noteq> [])"
| "id_truthy (Some (IdInt i)) = (i \<noteq> 0)"

fun str_of_id :: "user_id \<Rightarrow> string" where
  "str_of_id (IdStr s) = s"
| "str_of_id (IdInt i) = str_int i"

text \<open>\<open>user.get('id') or user.get('user_id') or user.get('username')\<close>, then the truth test.\<close>

definition dict_user_id :: "user_fields \<Rightarrow> user_id option" where
  "dict_user_id u =
     (let user_id = (if id_truthy (uf_id u) then uf_id u
                     else if id_truthy (uf_user_id u) then uf_user_id u
                     else uf_username u)
      in if id_truthy user_id then user_id else None)"

fun extract_user_ids :: "user list \<Rightarrow> string list" where
  "extract_user_ids [] = []"
| "extract_user_ids (UserDict u # users_list) =
     (case dict_user_id u of
        Some user_id \<Rightarrow> str_of_id user_id # extract_user_ids users_list
      | None \<Rightarrow> extract_user_ids users_list)"
| "extract_user_ids (UserStr s # users_list) = s # extract_user_ids users_list"
| "extract_user_ids (UserOther # users_list) = extract_user_ids users_list"

definition calculate_ratio :: "int \<Rightarrow> int \<Rightarrow> real" where
  "calculate_ratio n_followers n_following =
     (if n_following = 0 then (if n_followers = 0 then 1.0 else 100.0)
      else real_of_int n_followers / real_of_int n_following)"

definition estimate_isolation_from_counts :: "int \<Rightarrow> int \<Rightarrow> real" where
  "estimate_isolation_from_counts followers_count following_count =
     (let follower_factor =
            (if followers_count < 10 then 0.8
             else if followers_count < 50 then 0.5
             else if followers_count < 100 then 0.3
             else (0.1 :: real));
          following_factor =
            (if following_count > 1000 \<and> followers_count < 100 then 0.7
             else if following_count > 500 \<and> followers_count < 50 then 0.6
             else (0.2 :: real))
      in 0.5 * follower_factor + 0.5 * following_factor)"

text \<open>Both relationship arguments are lists in this model, so the \<open>isinstance\<close> test of
  \<open>_calculate_network_isolation\<close> holds and its fallback branch is not taken.\<close>

definition calculate_network_isolation ::
  "user list \<Rightarrow> user list \<Rightarrow> user list \<Rightarrow> int \<Rightarrow> int \<Rightarrow> real" where
  "calculate_network_isolation followers following interactions followers_count following_count =
     (let follower_ids = set (extract_user_ids followers);
          following_ids = set (extract_user_ids following);
          interaction_ids = set (extract_user_ids interactions);
          followers_interacted = card (follower_ids \<inter> interaction_ids);
          follower_interaction_ratio =
            (if card follower_ids > 0 then real followers_interacted / real (card follower_ids)
             else 0);
          mutual = card (follower_ids \<inter> following_ids);
          mutual_ratio =
            (if card following_ids > 0 then real mutual / real (card following_ids) else 0)
      in 1.0 - (0.7 * mutual_ratio + 0.3 * follower_interaction_ratio))"

definition analyze_mutual_connections :: "user list \<Rightarrow> user list \<Rightarrow> real" where
  "analyze_mutual_connections followers following =
     (let follower_ids = set (extract_user_ids followers);
          following_ids = set (extract_user_ids following)
      in if following_ids = {} then 0.5
         else let mutual = card (follower_ids \<inter> following_ids)
              in real mutual / real (card following_ids))"

definition estimate_clustering :: "user list \<Rightarrow> user list \<Rightarrow> user list \<Rightarrow> real" where
  "estimate_clustering followers following interactions =
     (let follower_ids = set (extract_user_ids followers);
          following_ids = set (extract_user_ids following);
          interaction_ids = set (extract_user_ids interactions);
          follower_following_overlap = card (follower_ids \<inter> following_ids);
          follower_interaction_overlap = card (follower_ids \<inter> interaction_ids);
          following_interaction_overlap = card (following_ids \<inter> interaction_ids);
          total_overlap = follower_following_overlap + follower_interaction_overlap
                          + following_interaction_overlap;
          total_size = card follower_ids + card following_ids + card interaction_ids
      in if total_size = 0 then 0.5
         else let raw_clustering = real total_overlap / real total_size
              in 0.05 + raw_clustering * 0.75)"

definition calculate_reciprocity :: "user list \<Rightarrow> user list \<Rightarrow> real" where
  "calculate_reciprocity followers following =
     (let follower_ids = set (extract_user_ids followers);
          following_ids = set (extract_user_ids following)
      in if following_ids = {} then 0.5
         else let mutual = card (follower_ids \<inter> following_ids)
              in real mutual / real (card following_ids))"

definition calculate_network_score ::
  "real \<Rightarrow> real \<Rightarrow> real \<Rightarrow> real \<Rightarrow> real \<Rightarrow> int \<Rightarrow> int \<Rightarrow> real" where
  "calculate_network_score followers_ratio isolation_score mutual_ratio clustering reciprocity
     followers_count following_count =
     (let s0 = (if followers_count < 10 then 0.3
                else if followers_count < 50 then 0.2 else (0.0 :: real));
          s1 = (if following_count > 0
                then (let following_to_follower =
                            real_of_int followers_count / real_of_int following_count
                      in if following_to_follower < 0.1 then s0 + 0.25
                         else if following_to_follower < 0.3 then s0 + 0.15 else s0)
                else s0);
          s2 = s1 + isolation_score * 0.2;
          s3 = s2 + (1 - mutual_ratio) * 0.15;
          s4 = s3 + (1 - clustering) * 0.1;
          suspicion = s4 + (1 - reciprocity) * 0.1
      in min 1.0 suspicion)"

definition network_analyze :: "profile \<Rightarrow> fmap" where
  "network_analyze profile_data =
     (let followers_count = (case pd_followers_count profile_data of None \<Rightarrow> 0 | Some c \<Rightarrow> c);
          following_count = (case pd_following_count profile_data of None \<Rightarrow> 0 | Some c \<Rightarrow> c);
          followers = pd_followers profile_data;
          following = pd_following profile_data;
          interactions = pd_interactions profile_data;
          followers_to_following_ratio = calculate_ratio followers_count following_count;
          network_isolation_score =
            (if followers \<noteq> [] \<or> following \<noteq> [] \<or> interactions \<noteq> []
             then calculate_network_isolation followers following interactions
                    followers_count following_count
             else estimate_isolation_from_counts followers_count following_count);
          mutual_connection_ratio =
            (if followers \<noteq> [] \<and> following \<noteq> []
             then analyze_mutual_connections followers following else 0.5);
          clustering_coefficient =
            (if followers \<noteq> [] \<and> following \<noteq> []
             then estimate_clustering followers following interactions else 0.5);
          reciprocity =
            (if followers \<noteq> [] \<and> following \<noteq> []
             then calculate_reciprocity followers following else 0.5);
          network_score = calculate_network_score followers_to_following_ratio
             network_isolation_score mutual_connection_ratio clustering_coefficient reciprocity
             followers_count following_count
      in map_of
        [(''network_analysis_performed'', Flag True),
         (''followers_count'', Num (real_of_int followers_count)),
         (''following_count'', Num (real_of_int following_count)),
         (''followers_to_following_ratio'', Num followers_to_following_ratio),
         (''network_isolation_score'', Num network_isolation_score),
         (''mutual_connection_ratio'', Num mutual_connection_ratio),
         (''clustering_coefficient'', Num clustering_coefficient),
         (''reciprocity'', Num reciprocity),
         (''network_score'', Num network_score)])"

section \<open>ActivityAnalyzer\<close>

fun first_parse :: "(string \<Rightarrow> int option) \<Rightarrow> string list \<Rightarrow> int option" where
  "first_parse parse [] = None"
| "first_parse parse (fmt # fmts) =
     (case parse fmt of Some d \<Rightarrow> Some d | None \<Rightarrow> first_parse parse fmts)"

definition creation_date_formats :: "string list" where
  "creation_date_formats = [''%Y-%m-%d'', ''%Y-%m-%dT%H:%M:%S'', ''%Y/%m/%d'']"

definition timestamp_formats :: "string list" where
  "timestamp_formats = [''%Y-%m-%dT%H:%M:%S'', ''%Y-%m-%d %H:%M:%S'']"

definition replace_Z :: "string \<Rightarrow> string" where
  "replace_Z s = concat (map (\<lambda>c. if c = CHR ''Z'' then ''+00:00'' else [c]) s)"

text \<open>The body of the timestamp loop for one post: \<open>None\<close> where the post contributes no
  datetime (no timestamp, a failed conversion, or no format matched).\<close>

fun parse_stamp :: "pylib \<Rightarrow> stamp \<Rightarrow> datetime option" where
  "parse_stamp lib (StampNum x) = map_option Naive (fromtimestamp lib x)"
| "parse_stamp lib (StampStr s) =
     (case first_parse (strptime lib s) timestamp_formats of
        Some d \<Rightarrow> Some (Naive d)
      | None \<Rightarrow> fromisoformat lib (replace_Z s))"

fun post_datetime :: "pylib \<Rightarrow> post \<Rightarrow> datetime option" where
  "post_datetime lib (PostDict d) =
     (case post_timestamp d of None \<Rightarrow> None | Some st \<Rightarrow> parse_stamp lib st)"
| "post_datetime lib (PostStr s) = None"

definition collect_timestamps :: "pylib \<Rightarrow> post list \<Rightarrow> datetime list" where
  "collect_timestamps lib posts = List.map_filter (post_datetime lib) posts"

text \<open>\<open>sorted\<close> on datetimes: comparing a naive with an aware datetime raises \<open>TypeError\<close>;
  otherwise the sort is stable on the compared instant.\<close>

definition sorted_datetimes :: "datetime list \<Rightarrow> error + datetime list" where
  "sorted_datetimes ts =
     (if length ts < 2 then Inr ts
      else if (\<forall>t \<in> set ts. is_aware t) \<or> (\<forall>t \<in> set ts. \<not> is_aware t)
           then Inr (sort_key instant ts)
           else Inl TypeError)"

definition calculate_posting_frequency :: "post list \<Rightarrow> int \<Rightarrow> real" where
  "calculate_posting_frequency posts account_age_days =
     (let account_age_days = (if account_age_days \<le> 0 then 1 else account_age_days)
      in real (length posts) / real_of_int account_age_days)"

fun post_engagement :: "post \<Rightarrow> int" where
  "post_engagement (PostDict d) =
     (case post_likes d of None \<Rightarrow> 0 | Some n \<Rightarrow> n)
     + (case post_comments d of None \<Rightarrow> 0 | Some n \<Rightarrow> n)
     + (case post_shares d of None \<Rightarrow> 0 | Some n \<Rightarrow> n)"
| "post_engagement (PostStr s) = 0"

definition calculate_engagement_rate :: "post list \<Rightarrow> real" where
  "calculate_engagement_rate posts =
     (let total_posts = length posts in
      if total_posts = 0 then 0.0
      else let total_engagement = sum_list (map post_engagement posts);
               avg_engagement_per_post = real_of_int total_engagement / real total_posts
           in 1 / (1 + exp (- 0.1 * (avg_engagement_per_post - 10))))"

definition np_mean :: "real list \<Rightarrow> real" where
  "np_mean xs = sum_list xs / real (length xs)"

definition np_std :: "real list \<Rightarrow> real" where
  "np_std xs = sqrt (np_mean (map (\<lambda>x. (x - np_mean xs)\<^sup>2) xs))"

fun consecutive_diffs :: "int list \<Rightarrow> int list" where
  "consecutive_diffs (a # b # xs) = (b - a) # consecutive_diffs (b # xs)"
| "consecutive_diffs xs = []"

definition total_seconds :: "int \<Rightarrow> real" where
  "total_seconds usec = real_of_int usec / real_of_int usec_per_second"

definition analyze_posting_regularity :: "datetime list \<Rightarrow> error + real" where
  "analyze_posting_regularity timestamps =
     (if length timestamps < 2 then Inr 0.5
      else bind_err (sorted_datetimes timestamps) (\<lambda>sorted_timestamps.
        let time_diffs = map total_seconds (consecutive_diffs (map instant sorted_timestamps));
            mean_diff = np_mean time_diffs
        in if mean_diff = 0 then Inr 1.0
           else let std_diff = np_std time_diffs;
                    cv = std_diff / mean_diff
                in Inr (max 0.0 (min 1.0 (1.0 - cv / 2.0)))))"

definition window_posts_at :: "nat list \<Rightarrow> nat \<Rightarrow> nat" where
  "window_posts_at hours start_hour =
     sum_list (map (\<lambda>h. count_list hours (h mod 24)) [start_hour ..< start_hour + 8])"

definition max_window_posts :: "nat list \<Rightarrow> nat" where
  "max_window_posts hours =
     fold (\<lambda>start_hour acc. max acc (window_posts_at hours start_hour)) [0 ..< 24] 0"

definition analyze_time_zone_consistency :: "datetime list \<Rightarrow> real" where
  "analyze_time_zone_consistency timestamps =
     (if length timestamps < 5 then 0.5
      else let hours = map hour_of timestamps;
               total_posts = length hours
           in real (max_window_posts hours) / real total_posts)"

definition burst_window :: int where
  "burst_window = 10 * 60 * usec_per_second"

definition min_posts_for_burst :: nat where
  "min_posts_for_burst = 3"

text \<open>The inner \<open>while\<close> of \<open>_detect_posting_bursts\<close> on the sorted timestamps: it returns
  the final \<open>window_posts\<close> and \<open>j\<close>.\<close>

function count_window :: "datetime list \<Rightarrow> datetime \<Rightarrow> nat \<Rightarrow> nat \<Rightarrow> nat \<times> nat" where
  "count_window ts window_end window_posts j =
     (if j < length ts \<and> datetime_le (ts ! j) window_end
      then count_window ts window_end (window_posts + 1) (j + 1)
      else (window_posts, j))"
  by pat_completeness auto
termination
  by (relation "measure (\<lambda>(ts, window_end, window_posts, j). length ts - j)") auto

declare count_window.simps [simp del]

text \<open>The outer \<open>while\<close>: the window end is computed first and may overflow; \<open>i\<close> jumps to
  \<open>j\<close> after a burst and moves by one otherwise.\<close>

function burst_loop :: "datetime list \<Rightarrow> nat \<Rightarrow> nat \<Rightarrow> error + nat" where
  "burst_loop ts i bursts =
     (if i < length ts
      then (case add_timedelta (ts ! i) burst_window of
              Inl e \<Rightarrow> Inl e
            | Inr window_end \<Rightarrow>
                (case count_window ts window_end 0 i of (window_posts, j) \<Rightarrow>
                   if window_posts \<ge> min_posts_for_burst
                   then burst_loop ts j (bursts + 1)
                   else burst_loop ts (i + 1) bursts))
      else Inr bursts)"
  by pat_completeness auto
termination
proof -
  have advance: "j' = j + (wp' - wp) \<and> wp \<le> wp'"
    if "count_window ts w wp j = (wp', j')" for ts w wp j wp' j'
    using that
  proof (induction ts w wp j rule: count_window.induct)
    case (1 ts window_end window_posts j)
    show ?case
    proof (cases "j < length ts \<and> datetime_le (ts ! j) window_end")
      case True
      with "1.prems" have "count_window ts window_end (window_posts + 1) (j + 1) = (wp', j')"
        by (simp add: count_window.simps [of ts window_end window_posts j])
      from "1.IH" [OF True this] show ?thesis by auto
    next
      case False
      with "1.prems" show ?thesis
        by (simp add: count_window.simps [of ts window_end window_posts j])
    qed
  qed
  show ?thesis
  proof (relation "measure (\<lambda>(ts, i, bursts). length ts - i)")
    show "wf (measure (\<lambda>(ts, i, bursts). length ts - i))" by simp
  next
    fix ts :: "datetime list" and i bursts window_posts j :: nat and window_end
    assume "i < length ts"
      and "(window_posts, j) = count_window ts window_end 0 i"
      and "min_posts_for_burst \<le> window_posts"
    then have "count_window ts window_end 0 i = (window_posts, j)" by simp
    from advance [OF this] \<open>min_posts_for_burst \<le> window_posts\<close> \<open>i < length ts\<close>
    show "((ts, j, bursts + 1), ts, i, bursts) \<in> measure (\<lambda>(ts, i, bursts). length ts - i)"
      by (simp add: min_posts_for_burst_def)
  next
    fix ts :: "datetime list" and i bursts :: nat
    assume "i < length ts"
    then show "((ts, i + 1, bursts), ts, i, bursts) \<in> measure (\<lambda>(ts, i, bursts). length ts - i)"
      by simp
  qed
qed

declare burst_loop.simps [simp del]

definition detect_posting_bursts :: "datetime list \<Rightarrow> error + nat" where
  "detect_posting_bursts timestamps =
     (if length timestamps < 3 then Inr 0
      else bind_err (sorted_datetimes timestamps) (\<lambda>sorted_timestamps.
             burst_loop sorted_timestamps 0 0))"

definition calculate_activity_score ::
  "int \<Rightarrow> real \<Rightarrow> real \<Rightarrow> real \<Rightarrow> real \<Rightarrow> nat \<Rightarrow> real" where
  "calculate_activity_score account_age_days posts_per_day posting_regularity engagement_rate
     time_zone_consistency posting_bursts =
     (let age_factor = max 0 (min 1 (1 - real_of_int account_age_days / 180));
          frequency_factor =
            (if posts_per_day > 15 then min 1 ((posts_per_day - 15) / 10)
             else if posts_per_day < 0.05 then min 1 ((0.05 - posts_per_day) / 0.05)
             else 0);
          regularity_factor = (if posting_regularity > 0.8 then posting_regularity else 0);
          engagement_factor = max 0 (min 1 (1 - engagement_rate * 10));
          time_zone_factor = max 0 (min 1 (1 - time_zone_consistency));
          burst_factor = min 1 (real posting_bursts / 5)
      in 0.15 * age_factor + 0.2 * frequency_factor + 0.15 * regularity_factor
         + 0.25 * engagement_factor + 0.1 * time_zone_factor + 0.15 * burst_factor)"

definition activity_defaults :: fmap where
  "activity_defaults = map_of
     [(''activity_analysis_performed'', Flag False),
      (''posts_per_day'', Num 0),
      (''engagement_rate'', Num 0),
      (''posting_regularity'', Num 0.5),
      (''activity_score'', Num 0.5),
      (''time_zone_consistency'', Num 0.5)]"

text \<open>The account age both the activity analyzer and the feature extractor compute from a
  creation date string: the formats are tried in order and the first that parses gives the
  date; \<open>None\<close> when none of them parses.\<close>

definition parsed_account_age :: "pylib \<Rightarrow> int \<Rightarrow> string \<Rightarrow> int option" where
  "parsed_account_age lib now creation_date_str =
     map_option (days_between now) (first_parse (strptime lib creation_date_str) creation_date_formats)"

definition activity_analyze :: "pylib \<Rightarrow> int \<Rightarrow> profile \<Rightarrow> error + fmap" where
  "activity_analyze lib now profile_data =
     (let posts = pd_posts profile_data in
      if posts = [] then Inr activity_defaults
      else
        let account_age_days =
              (case pd_creation_date profile_data of
                 None \<Rightarrow> 365
               | Some creation_date_str \<Rightarrow>
                   if creation_date_str = [] then 365
                   else (case parsed_account_age lib now creation_date_str of
                           Some days \<Rightarrow> days | None \<Rightarrow> 365));
            posts_per_day = calculate_posting_frequency posts account_age_days;
            post_timestamps = collect_timestamps lib posts
        in bind_err
             (if post_timestamps \<noteq> []
              then bind_err (analyze_posting_regularity post_timestamps) (\<lambda>posting_regularity.
                   let time_zone_consistency = analyze_time_zone_consistency post_timestamps
                   in bind_err (detect_posting_bursts post_timestamps) (\<lambda>posting_bursts.
                        Inr (posting_regularity, time_zone_consistency, posting_bursts)))
              else Inr (0.5, 0.5, 0))
             (\<lambda>(posting_regularity, time_zone_consistency, posting_bursts).
                let engagement_rate = calculate_engagement_rate posts;
                    activity_score = calculate_activity_score account_age_days posts_per_day
                       posting_regularity engagement_rate time_zone_consistency posting_bursts
                in Inr (map_of
                  [(''activity_analysis_performed'', Flag True),
                   (''account_age_days'', Num (real_of_int account_age_days)),
                   (''posts_per_day'', Num posts_per_day),
                   (''posting_regularity'', Num posting_regularity),
                   (''time_zone_consistency'', Num time_zone_consistency),
                   (''engagement_rate'', Num engagement_rate),
                   (''posting_bursts'', Num (real posting_bursts)),
                   (''activity_score'', Num activity_score)])))"

section \<open>FeatureExtractor\<close>

definition opt_entry :: "string \<Rightarrow> pyval option \<Rightarrow> (string \<times> pyval) list" where
  "opt_entry k v = (case v of None \<Rightarrow> [] | Some x \<Rightarrow> [(k, x)])"

definition bool_num :: "bool \<Rightarrow> pyval" where
  "bool_num b = Num (if b then 1 else 0)"

definition str_truthy :: "string option \<Rightarrow> bool" where
  "str_truthy s = (case s of None \<Rightarrow> False | Some t \<Rightarrow> t \<noteq> [])"

text \<open>
  \<open>_extract_account_metrics\<close>. With a non-empty creation date the three formats are tried in
  turn; when none matches, \<open>creation_date\<close> is never bound, the \<open>locals()\<close> test fails and no
  \<open>account_age_days\<close> entry is written. The \<open>except Exception\<close> branch (default 365) needs a
  non-\<open>ValueError\<close> exception, which a string argument does not raise.
\<close>

definition extract_account_metrics :: "pylib \<Rightarrow> int \<Rightarrow> profile \<Rightarrow> fmap" where
  "extract_account_metrics lib now profile_data =
     (let account_age_days =
            (case pd_creation_date profile_data of
               None \<Rightarrow> Some (Num 365)
             | Some creation_date_str \<Rightarrow>
                 if creation_date_str = [] then Some (Num 365)
                 else (case parsed_account_age lib now creation_date_str of
                         Some days \<Rightarrow> Some (Num (real_of_int days))
                       | None \<Rightarrow> None));
          followers_count =
            (case pd_followers_count profile_data of
               Some c \<Rightarrow> c
             | None \<Rightarrow> (case pd_friend_count profile_data of Some c \<Rightarrow> c | None \<Rightarrow> 0));
          following_count =
            (case pd_following_count profile_data of Some c \<Rightarrow> c | None \<Rightarrow> 0);
          followers_to_following_ratio =
            (if following_count > 0
             then real_of_int followers_count / real_of_int following_count
             else if followers_count = 0 then 1.0 else 100.0);
          post_count =
            (case pd_post_count profile_data of
               Some c \<Rightarrow> real_of_int c
             | None \<Rightarrow> real (length (pd_posts profile_data)))
      in map_of
        (opt_entry ''account_age_days'' account_age_days @
         [(''followers_count'', Num (real_of_int followers_count)),
          (''following_count'', Num (real_of_int following_count)),
          (''followers_to_following_ratio'', Num followers_to_following_ratio),
          (''post_count'', Num post_count)]))"

text \<open>A Python float has no \<open>log\<close> method: the call raises \<open>AttributeError\<close>.\<close>

definition float_log :: "real \<Rightarrow> error + real" where
  "float_log p = Inl AttributeError"

text \<open>The generator summed for the entropy, term by term.\<close>

fun entropy_terms :: "real list \<Rightarrow> error + real list" where
  "entropy_terms [] = Inr []"
| "entropy_terms (p # ps) =
     bind_err (if p > 0 then float_log p else Inr 0) (\<lambda>l.
       bind_err (entropy_terms ps) (\<lambda>rest. Inr (p * l # rest)))"

definition count_hours :: "nat list \<Rightarrow> nat list" where
  "count_hours hours_of_day =
     fold (\<lambda>hour hour_counts. hour_counts[hour := hour_counts ! hour + 1]) hours_of_day
       (replicate 24 0)"

fun post_engagement_fe :: "post \<Rightarrow> int" where
  "post_engagement_fe (PostDict d) =
     (case post_likes d of None \<Rightarrow> 0 | Some n \<Rightarrow> n)
     + (case post_comments d of None \<Rightarrow> 0 | Some n \<Rightarrow> n)
     + (case post_shares d of
          Some n \<Rightarrow> n
        | None \<Rightarrow> (case post_retweets d of None \<Rightarrow> 0 | Some n \<Rightarrow> n))"
| "post_engagement_fe (PostStr s) = 0"

text \<open>The number a dictionary entry stands for, with a default for an absent key.\<close>

definition num_or :: "pyval option \<Rightarrow> real \<Rightarrow> real" where
  "num_or v d = (case v of Some (Num x) \<Rightarrow> x | Some (Flag b) \<Rightarrow> (if b then 1 else 0) | _ \<Rightarrow> d)"

text \<open>The posting-time features computed when at least one timestamp was parsed.\<close>

definition median_hours :: "datetime list \<Rightarrow> error + real" where
  "median_hours post_timestamps =
     (if length post_timestamps > 1
      then bind_err (sorted_datetimes post_timestamps) (\<lambda>sorted_timestamps.
             let hours_between_posts =
                   sort (map (\<lambda>d. total_seconds d / 3600)
                           (consecutive_diffs (map instant sorted_timestamps)));
                 median_idx = length hours_between_posts div 2
             in Inr (hours_between_posts ! median_idx))
      else Inr 24)"

definition posting_time_features :: "datetime list \<Rightarrow> error + (string \<times> pyval) list" where
  "posting_time_features post_timestamps =
     bind_err (median_hours post_timestamps)
       (\<lambda>median_hours_between_posts.
          let hours_of_day = map hour_of post_timestamps;
              hour_counts = count_hours hours_of_day;
              total_posts = length hours_of_day;
              hour_probs = map (\<lambda>c. real c / real total_posts) (filter (\<lambda>c. c > 0) hour_counts)
          in bind_err
               (if hour_probs \<noteq> []
                then bind_err (entropy_terms hour_probs) (\<lambda>terms. Inr (- sum_list terms))
                else Inr 0)
               (\<lambda>posting_time_entropy.
                  let max_window_posts =
                        fold (\<lambda>start_hour acc.
                                max acc (sum_list (map (\<lambda>i. hour_counts ! ((start_hour + i) mod 24))
                                                     [0 ..< 8])))
                          [0 ..< 24] 0;
                      time_consistency =
                        (if total_posts > 0 then real max_window_posts / real total_posts else 0)
                  in Inr [(''median_hours_between_posts'', Num median_hours_between_posts),
                          (''posting_time_entropy'', Num posting_time_entropy),
                          (''time_consistency'', Num time_consistency)]))"

text \<open>
  \<open>_extract_activity_features\<close>. It starts from its own empty \<open>features\<close> dictionary, so the
  lookups of \<open>account_age_days\<close>, \<open>post_count\<close> and \<open>followers_count\<close> read that empty
  dictionary.
\<close>

definition extract_activity_features :: "pylib \<Rightarrow> profile \<Rightarrow> error + fmap" where
  "extract_activity_features lib profile_data =
     (let features = (Map.empty :: fmap);
          posts_per_day =
            (if features ''account_age_days'' \<noteq> None \<and> num_or (features ''account_age_days'') 0 > 0
             then num_or (features ''post_count'') 0 / num_or (features ''account_age_days'') 0
             else 0);
          posts = pd_posts profile_data;
          post_timestamps = collect_timestamps lib posts
      in bind_err
           (if post_timestamps \<noteq> [] then posting_time_features post_timestamps
            else Inr [(''median_hours_between_posts'', Num 24),
                      (''posting_time_entropy'', Num 0),
                      (''time_consistency'', Num 0.5)])
           (\<lambda>time_features.
              let total_engagement = sum_list (map post_engagement_fe posts);
                  total_posts = length posts;
                  engagement_rate =
                    (if total_posts > 0 \<and> num_or (features ''followers_count'') 0 > 0
                     then (real_of_int total_engagement / real total_posts)
                          / num_or (features ''followers_count'') 0
                     else 0)
              in Inr (map_of
                   ([(''posts_per_day'', Num posts_per_day)] @ time_features @
                    [(''engagement_rate'', Num engagement_rate)]))))"

fun post_texts_fe :: "post list \<Rightarrow> string list" where
  "post_texts_fe [] = []"
| "post_texts_fe (PostDict d # posts) =
     (let cap = (case post_caption d of None \<Rightarrow> [] | Some c \<Rightarrow> c);
          t = (case post_text d of None \<Rightarrow> cap | Some txt \<Rightarrow> if txt \<noteq> [] then txt else cap)
      in if t \<noteq> [] then t # post_texts_fe posts else post_texts_fe posts)"
| "post_texts_fe (PostStr s # posts) = s # post_texts_fe posts"

definition url_indicators :: "string list" where
  "url_indicators = [''http://'', ''https://'', ''www.'', ''.com'', ''.net'', ''.org'']"

text \<open>The ASCII members of \<open>emoji_indicators\<close>; the remaining five are non-ASCII sequences,
  which do not occur in the ASCII texts of this model.\<close>

definition emoji_count_in :: "string \<Rightarrow> nat" where
  "emoji_count_in txt =
     count_pair CHR '':'' CHR '')'' txt + count_pair CHR '':'' CHR ''('' txt
     + count_pair CHR '':'' CHR ''D'' txt + count_pair CHR '';'' CHR '')'' txt"

definition extract_content_features :: "profile \<Rightarrow> fmap" where
  "extract_content_features profile_data =
     (let post_texts = post_texts_fe (pd_posts profile_data);
          bio_length = (case pd_bio profile_data of None \<Rightarrow> 0 | Some b \<Rightarrow> length b);
          has_external_url =
            (truthy (pd_extras profile_data ''external_url'')
             \<or> truthy (pd_extras profile_data ''has_external_url''));
          n = real (length post_texts)
      in map_of
        ([(''bio_length'', Num (real bio_length)),
          (''has_external_url'', bool_num has_external_url)] @
         (if post_texts \<noteq> []
          then [(''avg_post_length'', Num (real (sum_list (map length post_texts)) / n)),
                (''hashtags_per_post'',
                   Num (real (sum_list (map (count_char CHR ''#'') post_texts)) / n)),
                (''urls_per_post'',
                   Num (real (length (filter (\<lambda>txt. \<exists>url \<in> set url_indicators.
                                                contains url (lower txt)) post_texts)) / n)),
                (''mentions_per_post'',
                   Num (real (sum_list (map (count_char CHR ''@'') post_texts)) / n)),
                (''emojis_per_post'', Num (real (sum_list (map emoji_count_in post_texts)) / n))]
          else [(''avg_post_length'', Num 0),
                (''hashtags_per_post'', Num 0),
                (''urls_per_post'', Num 0),
                (''mentions_per_post'', Num 0),
                (''emojis_per_post'', Num 0)])))"

text \<open>The loop over the username's characters: the longest and the current run of digits.\<close>

fun consecutive_digits :: "string \<Rightarrow> nat \<times> nat \<Rightarrow> nat \<times> nat" where
  "consecutive_digits [] (max_consecutive_digits, current_consecutive) =
     (max_consecutive_digits, current_consecutive)"
| "consecutive_digits (c # cs) (max_consecutive_digits, current_consecutive) =
     (if is_digit c
      then consecutive_digits cs
             (max max_consecutive_digits (current_consecutive + 1), current_consecutive + 1)
      else consecutive_digits cs (max_consecutive_digits, 0))"

definition extract_profile_features :: "profile \<Rightarrow> fmap" where
  "extract_profile_features profile_data =
     (let ex = pd_extras profile_data;
          uname = (case pd_username profile_data of None \<Rightarrow> [] | Some u \<Rightarrow> u);
          filled_fields =
            length (filter id
              [str_truthy (pd_bio profile_data), truthy (ex ''location''),
               str_truthy (pd_profile_pic_url profile_data), truthy (ex ''name''),
               truthy (ex ''display_name'')])
      in map_of
        ([(''is_verified'', bool_num (truthy (ex ''verified'') \<or> truthy (ex ''is_verified''))),
          (''is_private'', bool_num (truthy (ex ''is_private'')))] @
         (if uname \<noteq> []
          then [(''username_length'', Num (real (length uname))),
                (''username_digit_ratio'',
                   Num (real (length (filter is_digit uname)) / real (length uname))),
                (''username_underscore_count'', Num (real (count_char CHR ''_'' uname))),
                (''username_max_consecutive_digits'',
                   Num (real (fst (consecutive_digits uname (0, 0)))))]
          else [(''username_length'', Num 0),
                (''username_digit_ratio'', Num 0),
                (''username_underscore_count'', Num 0),
                (''username_max_consecutive_digits'', Num 0)]) @
         [(''profile_completeness'', Num (real filled_fields / 5))]))"

fun post_is_retweeted :: "post \<Rightarrow> bool" where
  "post_is_retweeted (PostDict d) = post_is_retweet d"
| "post_is_retweeted (PostStr s) = False"

fun post_sources :: "post list \<Rightarrow> string option list" where
  "post_sources [] = []"
| "post_sources (PostDict d # posts) =
     (case post_source d of Some src \<Rightarrow> src # post_sources posts | None \<Rightarrow> post_sources posts)"
| "post_sources (PostStr s # posts) = post_sources posts"

definition extract_twitter_features :: "profile \<Rightarrow> fmap" where
  "extract_twitter_features profile_data =
     (let posts = pd_posts profile_data;
          retweet_count = length (filter post_is_retweeted posts);
          profile_pic_url = (case pd_profile_pic_url profile_data of None \<Rightarrow> [] | Some u \<Rightarrow> u)
      in map_of
        [(''retweet_ratio'',
            Num (if posts \<noteq> [] then real retweet_count / real (length posts) else 0)),
         (''has_default_profile_image'', bool_num (contains ''default_profile'' profile_pic_url)),
         (''source_count'', Num (real (card (set (post_sources posts))))),
         (''is_twitter_blue'', bool_num (truthy (pd_extras profile_data ''is_blue'')))])"

definition extract_instagram_features :: "profile \<Rightarrow> fmap" where
  "extract_instagram_features profile_data =
     (let ex = pd_extras profile_data;
          post_count = (case pd_post_count profile_data of None \<Rightarrow> 0 | Some c \<Rightarrow> c);
          followers_count = (case pd_followers_count profile_data of None \<Rightarrow> 0 | Some c \<Rightarrow> c)
      in map_of
        [(''is_business_account'', bool_num (truthy (ex ''is_business_account''))),
         (''has_highlights'', bool_num (truthy (ex ''has_highlights''))),
         (''has_igtv'', bool_num (truthy (ex ''has_igtv''))),
         (''post_to_follower_ratio'',
            Num (if followers_count > 0
                 then real_of_int post_count / real_of_int followers_count else 0))])"

definition extract_facebook_features :: "profile \<Rightarrow> fmap" where
  "extract_facebook_features profile_data =
     (let ex = pd_extras profile_data;
          filled_detail_fields =
            length (filter (\<lambda>field. truthy (ex field))
                      [''work'', ''education'', ''relationship_status'', ''location''])
      in map_of
        [(''page_likes_count'', (case ex ''page_likes_count'' of None \<Rightarrow> Num 0 | Some v \<Rightarrow> v)),
         (''profile_details_completeness'', Num (real filled_detail_fields / 4)),
         (''has_profile_details'', bool_num (truthy (ex ''has_profile_details'')))])"

definition extract_platform_features :: "profile \<Rightarrow> fmap" where
  "extract_platform_features profile_data =
     (let platform = lower (case pd_platform profile_data of None \<Rightarrow> [] | Some p \<Rightarrow> p)
      in if platform = ''twitter'' \<or> platform = ''x'' then extract_twitter_features profile_data
         else if platform = ''instagram'' then extract_instagram_features profile_data
         else if platform = ''facebook'' then extract_facebook_features profile_data
         else Map.empty)"

definition extract_features :: "pylib \<Rightarrow> int \<Rightarrow> profile \<Rightarrow> error + fmap" where
  "extract_features lib now profile_data =
     bind_err (extract_activity_features lib profile_data) (\<lambda>activity_features.
       Inr (extract_account_metrics lib now profile_data ++ activity_features
            ++ extract_content_features profile_data
            ++ extract_profile_features profile_data
            ++ extract_platform_features profile_data))"

text \<open>The keys written by the account-metrics and activity parts of the extractor.\<close>

definition account_keys :: "string set" where
  "account_keys = {''account_age_days'', ''followers_count'', ''following_count'',
     ''followers_to_following_ratio'', ''post_count'', ''posts_per_day'',
     ''median_hours_between_posts'', ''posting_time_entropy'', ''time_consistency'',
     ''engagement_rate''}"

section \<open>ImageAnalyzer\<close>

definition hex_char :: "nat \<Rightarrow> char" where
  "hex_char d = (if d < 10 then char_of (48 + d) else char_of (87 + d))"

text \<open>\<open>hexdigest()\<close> of a 128-bit digest: 32 lowercase hexadecimal digits.\<close>

definition hexdigest :: "nat \<Rightarrow> string" where
  "hexdigest n = map (\<lambda>k. hex_char ((n div 16 ^ k) mod 16)) (rev [0 ..< 32])"

definition known_fake_image_hashes :: "string list" where
  "known_fake_image_hashes =
    [''a1b2c3d4e5f6g7h8i9j0'', ''b2c3d4e5f6g7h8i9j0k1'', ''c3d4e5f6g7h8i9j0k1l2'',
     ''d4e5f6g7h8i9j0k1l2m3'', ''e5f6g7h8i9j0k1l2m3n4'', ''f6g7h8i9j0k1l2m3n4o5'',
     ''g7h8i9j0k1l2m3n4o5p6'', ''h8i9j0k1l2m3n4o5p6q7'', ''i9j0k1l2m3n4o5p6q7r8'',
     ''j0k1l2m3n4o5p6q7r8s9'']"

text \<open>The ten default-picture patterns, by position.\<close>

definition default_patterns :: "nat list" where
  "default_patterns = [0 ..< 10]"

definition is_default_profile_picture :: "pylib \<Rightarrow> string \<Rightarrow> bool" where
  "is_default_profile_picture lib url = (\<exists>pat \<in> set default_patterns. default_search lib pat url)"

definition simulate_image_hash :: "pylib \<Rightarrow> string \<Rightarrow> string" where
  "simulate_image_hash lib url = take 20 (hexdigest (md5 lib url))"

definition simulate_ai_detection :: "pylib \<Rightarrow> string \<Rightarrow> bool" where
  "simulate_ai_detection lib url =
     (let url_hash = md5 lib url; seed = url_hash mod 1000
      in random_after_seed lib seed < 0.15)"

definition simulate_quality_score :: "pylib \<Rightarrow> string \<Rightarrow> real" where
  "simulate_quality_score lib url =
     (let url_hash = md5 lib url; seed = url_hash mod 1000
      in 0.3 + random_after_seed lib seed * 0.7)"

definition analyze_image :: "pylib \<Rightarrow> string \<Rightarrow> string \<times> bool \<times> bool \<times> real" where
  "analyze_image lib url =
     (let image_hash = simulate_image_hash lib url;
          is_stock = (image_hash \<in> set known_fake_image_hashes);
          is_ai_generated = simulate_ai_detection lib url;
          quality_score = simulate_quality_score lib url
      in (image_hash, is_stock, is_ai_generated, quality_score))"

definition calculate_profile_pic_score :: "bool \<Rightarrow> bool \<Rightarrow> bool \<Rightarrow> real \<Rightarrow> real" where
  "calculate_profile_pic_score is_default is_stock is_ai_generated quality_score =
     (let b0 = (0.3 :: real);
          b1 = (if is_default then b0 + 0.2 else b0);
          b2 = (if is_stock then b1 + 0.3 else b1);
          base_score = (if is_ai_generated then b2 + 0.4 else b2);
          quality_factor = (1 - quality_score) * 0.2
      in min 1.0 (base_score + quality_factor))"

definition image_analyze :: "pylib \<Rightarrow> profile \<Rightarrow> fmap" where
  "image_analyze lib profile_data =
     (case pd_profile_pic_url profile_data of
        None \<Rightarrow> map_of
          [(''image_analysis_performed'', Flag False),
           (''profile_pic_score'', Num 0.5),
           (''is_default_image'', Flag False),
           (''is_stock_photo'', Flag False),
           (''is_ai_generated'', Flag False)]
      | Some profile_pic_url \<Rightarrow>
          if profile_pic_url = [] then map_of
            [(''image_analysis_performed'', Flag False),
             (''profile_pic_score'', Num 0.5),
             (''is_default_image'', Flag False),
             (''is_stock_photo'', Flag False),
             (''is_ai_generated'', Flag False)]
          else
            let is_default = is_default_profile_picture lib profile_pic_url;
                (image_hash, is_stock, is_ai_generated, quality_score) =
                  (if \<not> is_default
                   then (case analyze_image lib profile_pic_url of
                           (h, st, ai, q) \<Rightarrow> (Str h, st, ai, q))
                   else (NoneVal, False, False, 0.5));
                profile_pic_score = calculate_profile_pic_score is_default is_stock
                   is_ai_generated quality_score
            in map_of
              [(''image_analysis_performed'', Flag True),
               (''profile_pic_score'', Num profile_pic_score),
               (''is_default_image'', Flag is_default),
               (''is_stock_photo'', Flag is_stock),
               (''is_ai_generated'', Flag is_ai_generated),
               (''image_quality_score'', Num quality_score),
               (''image_hash'', image_hash)])"

section \<open>FakeProfileDetector\<close>

text \<open>The trained model, when one was loaded: its probability for the positive class and
  its \<open>feature_importances_\<close> attribute, if it has one.\<close>

record classifier =
  predict_proba :: "real list \<Rightarrow> real"
  feature_importances :: "real list option"

record indicator =
  ind_name :: string
  ind_description :: string
  ind_severity :: string

record result =
  is_fake :: bool
  probability :: real
  indicators :: "indicator list"
  feature_importance :: "string \<rightharpoonup> real"
  recommendations :: "string list"
  res_profile_data :: profile
  res_timestamp :: int

text \<open>The three readings of \<open>datetime.now()\<close> during one analysis: in the feature extractor,
  in the activity analyzer, and for the result's timestamp (kept as the datetime that
  \<open>isoformat\<close> renders).\<close>

record clock =
  now_features :: int
  now_activity :: int
  now_result :: int

text \<open>A feature read as a number with a default for an absent key; booleans count as 0 and
  1, and a string or \<open>None\<close> in a numeric position is a \<open>TypeError\<close>.\<close>

definition num_get :: "fmap \<Rightarrow> string \<Rightarrow> real \<Rightarrow> error + real" where
  "num_get features k d =
     (case features k of
        None \<Rightarrow> Inr d
      | Some (Num x) \<Rightarrow> Inr x
      | Some (Flag b) \<Rightarrow> Inr (if b then 1 else 0)
      | Some (Str s) \<Rightarrow> Inl TypeError
      | Some NoneVal \<Rightarrow> Inl TypeError)"

fun num_gets :: "fmap \<Rightarrow> (string \<times> real) list \<Rightarrow> error + real list" where
  "num_gets features [] = Inr []"
| "num_gets features ((k, d) # kds) =
     bind_err (num_get features k d) (\<lambda>x.
       bind_err (num_gets features kds) (\<lambda>xs. Inr (x # xs)))"

definition feature_names :: "string list" where
  "feature_names =
    [''account_age_days'', ''posts_per_day'', ''followers_count'', ''following_count'',
     ''followers_to_following_ratio'', ''profile_pic_score'', ''bio_length'',
     ''has_external_url'', ''sentiment_score'', ''content_diversity'', ''engagement_rate'',
     ''posting_regularity'', ''suspicious_content_score'', ''network_isolation_score'']"

definition prepare_feature_vector :: "fmap \<Rightarrow> error + real list" where
  "prepare_feature_vector features = num_gets features (map (\<lambda>k. (k, 0)) feature_names)"

definition get_feature_importance :: "classifier \<Rightarrow> (string \<rightharpoonup> real)" where
  "get_feature_importance model =
     (let importances =
            (case feature_importances model of
               Some imps \<Rightarrow> imps
             | None \<Rightarrow> replicate (length feature_names) (1 / real (length feature_names)))
      in map_of (zip feature_names importances))"

text \<open>The nine red flags of \<open>_heuristic_detection\<close>, in the order of the dictionary.\<close>

definition red_flags :: "fmap \<Rightarrow> error + (string \<times> bool) list" where
  "red_flags features =
     bind_err (num_get features ''account_age_days'' 365) (\<lambda>account_age_days.
     bind_err (num_get features ''followers_to_following_ratio'' 1) (\<lambda>ratio.
     bind_err (num_get features ''posts_per_day'' 2) (\<lambda>posts_per_day.
     bind_err (num_get features ''profile_pic_score'' 0) (\<lambda>profile_pic_score.
     bind_err (num_get features ''engagement_rate'' 0.05) (\<lambda>engagement_rate.
     bind_err (num_get features ''suspicious_content_score'' 0) (\<lambda>suspicious_content_score.
     bind_err (num_get features ''network_isolation_score'' 0) (\<lambda>network_isolation_score.
     bind_err (num_get features ''content_diversity'' 1) (\<lambda>content_diversity.
     bind_err (num_get features ''bio_length'' 10) (\<lambda>bio_length.
       Inr [(''new_account'', account_age_days < 30),
            (''high_following_ratio'', ratio < 0.1),
            (''excessive_posting'', posts_per_day > 20),
            (''suspicious_profile_pic'', profile_pic_score > 0.7),
            (''low_engagement'', engagement_rate < 0.01),
            (''suspicious_content'', suspicious_content_score > 0.7),
            (''isolated_network'', network_isolation_score > 0.7),
            (''duplicate_content'', content_diversity < 0.3),
            (''no_bio'', bio_length < 5)])))))))))"

definition heuristic_detection :: "fmap \<Rightarrow> error + real \<times> bool \<times> (string \<rightharpoonup> real)" where
  "heuristic_detection features =
     bind_err (red_flags features) (\<lambda>flags.
       let red_flag_count = length (filter snd flags);
           prob = min (0.3 + (real red_flag_count / real (length flags)) * 0.7) 1.0;
           fake = (prob \<ge> 0.7);
           importance = map_of (map (\<lambda>(flag_name, is_triggered).
                                      (flag_name, if is_triggered then 0.1 else 0.0)) flags)
       in Inr (prob, fake, importance))"

definition mk_indicator :: "string \<Rightarrow> string \<Rightarrow> string \<Rightarrow> indicator" where
  "mk_indicator n d s = \<lparr>ind_name = n, ind_description = d, ind_severity = s\<rparr>"

definition identify_suspicious_indicators :: "fmap \<Rightarrow> error + indicator list" where
  "identify_suspicious_indicators features =
     bind_err (num_get features ''account_age_days'' 365) (\<lambda>account_age_days.
     bind_err (num_get features ''followers_to_following_ratio'' 1) (\<lambda>ratio.
     bind_err (num_get features ''posts_per_day'' 2) (\<lambda>posts_per_day.
     bind_err (num_get features ''profile_pic_score'' 0) (\<lambda>profile_pic_score.
     bind_err (num_get features ''engagement_rate'' 0.05) (\<lambda>engagement_rate.
     bind_err (num_get features ''content_diversity'' 1) (\<lambda>content_diversity.
     bind_err (num_get features ''suspicious_content_score'' 0) (\<lambda>suspicious_content_score.
     bind_err (num_get features ''network_isolation_score'' 0) (\<lambda>network_isolation_score.
       Inr ((if account_age_days < 30
             then [mk_indicator ''New Account'' ''Account was created recently'' ''medium'']
             else []) @
            (if ratio < 0.1
             then [mk_indicator ''Following/Follower Imbalance''
                     ''Account follows many users but has few followers'' ''high'']
             else []) @
            (if posts_per_day > 20
             then [mk_indicator ''Excessive Posting''
                     ''Account posts with unusually high frequency'' ''medium'']
             else []) @
            (if profile_pic_score > 0.7
             then [mk_indicator ''Suspicious Profile Picture''
                     ''Profile picture shows signs of being AI-generated or stock photo'' ''high'']
             else []) @
            (if engagement_rate < 0.01
             then [mk_indicator ''Low Engagement''
                     ''Posts receive very little engagement relative to follower count'' ''medium'']
             else []) @
            (if content_diversity < 0.3
             then [mk_indicator ''Repetitive Content''
                     ''Account posts very similar content repeatedly'' ''medium'']
             else []) @
            (if suspicious_content_score > 0.7
             then [mk_indicator ''Suspicious Content''
                     ''Content contains patterns associated with fake accounts'' ''high'']
             else []) @
            (if network_isolation_score > 0.7
             then [mk_indicator ''Isolated Network''
                     ''Account has minimal interaction with legitimate accounts'' ''high'']
             else []))))))))))"

definition has_indicator :: "string \<Rightarrow> indicator list \<Rightarrow> bool" where
  "has_indicator n inds = (\<exists>i \<in> set inds. ind_name i = n)"

definition generate_recommendations :: "bool \<Rightarrow> real \<Rightarrow> indicator list \<Rightarrow> string list" where
  "generate_recommendations fake prob inds =
     [if fake \<and> prob > 0.9
      then ''This profile is highly likely to be fake. Consider blocking and reporting.''
      else if fake
      then ''This profile shows several suspicious patterns. Exercise caution when interacting.''
      else if prob > 0.4
      then ''This profile shows some suspicious patterns but may be legitimate. Verify before engaging.''
      else ''This profile appears to be legitimate based on our analysis.''] @
     (if has_indicator ''New Account'' inds
      then [''This is a new account. Consider waiting for a longer activity history before engaging.'']
      else []) @
     (if has_indicator ''Suspicious Profile Picture'' inds
      then [''Verify the profile picture by performing a reverse image search.'']
      else []) @
     (if has_indicator ''Suspicious Content'' inds
      then [''Review the content posted by this account carefully before engaging.'']
      else [])"

text \<open>The merged dictionary of \<open>analyze_profile\<close>: later analyses overwrite earlier keys.\<close>

definition combined_features :: "pylib \<Rightarrow> clock \<Rightarrow> profile \<Rightarrow> error + fmap" where
  "combined_features lib clk profile_data =
     bind_err (extract_features lib (now_features clk) profile_data) (\<lambda>features.
       let content_analysis = content_analyze lib profile_data in
       bind_err (activity_analyze lib (now_activity clk) profile_data) (\<lambda>activity_analysis.
         let image_analysis = image_analyze lib profile_data;
             network_analysis = network_analyze profile_data
         in Inr (features ++ content_analysis ++ activity_analysis ++ image_analysis
                 ++ network_analysis)))"

text \<open>The decision step: the model's probability if a model is loaded, the heuristic
  otherwise. The feature vector is only consumed by the model.\<close>

definition decide :: "classifier option \<Rightarrow> fmap \<Rightarrow> error + real \<times> bool \<times> (string \<rightharpoonup> real)" where
  "decide model features =
     (case model of
        Some m \<Rightarrow>
          bind_err (prepare_feature_vector features) (\<lambda>feature_vector.
            let prob = predict_proba m feature_vector;
                fake = (prob \<ge> 0.7)
            in Inr (prob, fake, get_feature_importance m))
      | None \<Rightarrow> heuristic_detection features)"

definition analyze_profile ::
  "pylib \<Rightarrow> clock \<Rightarrow> classifier option \<Rightarrow> profile \<Rightarrow> error + result" where
  "analyze_profile lib clk model profile_data =
     bind_err (combined_features lib clk profile_data) (\<lambda>features.
     bind_err (decide model features) (\<lambda>(prob, fake, importance).
     bind_err (identify_suspicious_indicators features) (\<lambda>inds.
       Inr \<lparr>is_fake = fake,
            probability = prob,
            indicators = inds,
            feature_importance = importance,
            recommendations = generate_recommendations fake prob inds,
            res_profile_data = profile_data,
            res_timestamp = now_result clk\<rparr>)))"

section \<open>Concrete inputs\<close>

text \<open>
  An instance of the library capabilities for evaluating the model on concrete inputs: local
  time is UTC, the only date string it parses is \<open>2024-01-01\<close> (day 738885 after day one),
  every random draw is 0.5 and no regular expression matches.
\<close>

definition sample_lib :: pylib where
  "sample_lib =
     \<lparr>strptime = (\<lambda>s fmt. if s = ''2024-01-01'' \<and> fmt = ''%Y-%m-%d''
                            then Some (738885 * usec_per_day) else None),
      fromtimestamp = (\<lambda>x. Some (719162 * usec_per_day + \<lfloor>x * 1000000\<rfloor>)),
      fromisoformat = (\<lambda>s. None),
      md5 = (\<lambda>s. 0),
      random_after_seed = (\<lambda>seed. 0.5),
      spam_search = (\<lambda>pat s. False),
      default_search = (\<lambda>pat s. False)\<rparr>"

definition empty_profile :: profile where
  "empty_profile =
     \<lparr>pd_username = None, pd_platform = None, pd_creation_date = None, pd_bio = None,
      pd_profile_pic_url = None, pd_followers_count = None, pd_friend_count = None,
      pd_following_count = None, pd_post_count = None, pd_posts = [], pd_followers = [],
      pd_following = [], pd_interactions = [], pd_extras = Map.empty\<rparr>"

definition empty_post :: post_fields where
  "empty_post =
     \<lparr>post_text = None, post_caption = None, post_timestamp = None, post_likes = None,
      post_comments = None, post_shares = None, post_retweets = None, post_is_retweet = False,
      post_source = None\<rparr>"

definition sample_clock :: clock where
  "sample_clock = \<lparr>now_features = 738895 * usec_per_day, now_activity = 738895 * usec_per_day,
                    now_result = 738895 * usec_per_day\<rparr>"

definition sample_model :: classifier where
  "sample_model = \<lparr>predict_proba = (\<lambda>v. 0.8), feature_importances = None\<rparr>"

text \<open>A feature map on which all nine red flags of the heuristic are triggered.\<close>

definition all_flags_features :: fmap where
  "all_flags_features = map_of
     [(''account_age_days'', Num 1),
      (''followers_to_following_ratio'', Num 0),
      (''posts_per_day'', Num 50),
      (''profile_pic_score'', Num 0.9),
      (''engagement_rate'', Num 0),
      (''suspicious_content_score'', Num 0.9),
      (''network_isolation_score'', Num 0.9),
      (''content_diversity'', Num 0.1),
      (''bio_length'', Num 0)]"

text \<open>A profile created on 2024-01-01, and clocks ten days, ten days and an hour, and a
  hundred days after that date.\<close>

definition dated_profile :: profile where
  "dated_profile = empty_profile\<lparr>pd_creation_date := Some ''2024-01-01''\<rparr>"

definition clock_at :: "int \<Rightarrow> clock" where
  "clock_at t = \<lparr>now_features = t, now_activity = t, now_result = t\<rparr>"

definition ten_days_after :: int where
  "ten_days_after = 738895 * usec_per_day"

definition ten_days_and_an_hour_after :: int where
  "ten_days_and_an_hour_after = 738895 * usec_per_day + 3600 * usec_per_second"

definition hundred_days_after :: int where
  "hundred_days_after = 738985 * usec_per_day"

text \<open>A profile that follows \<open>bob\<close>, \<open>carol\<close> and \<open>dave\<close> and is followed by \<open>alice\<close>, \<open>bob\<close>
  and \<open>carol\<close>, and a profile that follows \<open>a\<close> and \<open>b\<close> and has no follower list.\<close>

definition followed_profile :: profile where
  "followed_profile =
     empty_profile\<lparr>pd_followers := [UserStr ''alice'', UserStr ''bob'', UserStr ''carol''],
                    pd_following := [UserStr ''bob'', UserStr ''carol'', UserStr ''dave'']\<rparr>"

definition following_only_profile :: profile where
  "following_only_profile = empty_profile\<lparr>pd_following := [UserStr ''a'', UserStr ''b'']\<rparr>"

text \<open>The wall clock of 9999-12-31T23:15:00, forty-five minutes before the end of the last
  representable day.\<close>

definition last_evening :: int where
  "last_evening = 3652058 * usec_per_day + (23 * 60 + 15) * 60 * usec_per_second"

section \<open>Specification-side definitions\<close>

text \<open>The counts the specification's sentiment formula speaks of: occurrences of words of
  the fixed vocabularies among all tokens of all texts.\<close>

definition positiveCount :: "string list \<Rightarrow> nat" where
  "positiveCount texts =
     length (filter (\<lambda>w. w \<in> set positive_words) (concat (map (\<lambda>t. tokenize (lower t)) texts)))"

definition negativeCount :: "string list \<Rightarrow> nat" where
  "negativeCount texts =
     length (filter (\<lambda>w. w \<in> set negative_words) (concat (map (\<lambda>t. tokenize (lower t)) texts)))"

text \<open>The burst count in the specification's words, on the instants of the sorted posts:
  a window opens at a post and takes the following posts up to ten minutes later; with at
  least three posts in it a burst is counted and the scan resumes after the burst's last
  post, otherwise it resumes at the next post.\<close>

function greedy_bursts :: "int list \<Rightarrow> nat" where
  "greedy_bursts [] = 0"
| "greedy_bursts (t # ts) =
     (if 3 \<le> 1 + length (takeWhile (\<lambda>u. u \<le> t + burst_window) ts)
      then 1 + greedy_bursts (dropWhile (\<lambda>u. u \<le> t + burst_window) ts)
      else greedy_bursts ts)"
  by pat_completeness auto
termination
  by (relation "measure length") (auto simp: length_dropWhile_le less_Suc_eq_le)

definition mixed_awareness :: "datetime list \<Rightarrow> bool" where
  "mixed_awareness ts = ((\<exists>t \<in> set ts. is_aware t) \<and> (\<exists>t \<in> set ts. \<not> is_aware t))"

text \<open>The same scan on the sorted datetimes themselves, with the window end computed as the
  code computes it: opening a window at a post within ten minutes of \<open>datetime.max\<close> raises
  \<open>OverflowError\<close>.\<close>

function greedy_scan :: "datetime list \<Rightarrow> error + nat" where
  "greedy_scan [] = Inr 0"
| "greedy_scan (t # ts) =
     (case add_timedelta t burst_window of
        Inl e \<Rightarrow> Inl e
      | Inr window_end \<Rightarrow>
          if 3 \<le> 1 + length (takeWhile (\<lambda>u. datetime_le u window_end) ts)
          then bind_err (greedy_scan (dropWhile (\<lambda>u. datetime_le u window_end) ts))
                 (\<lambda>n. Inr (1 + n))
          else greedy_scan ts)"
  by pat_completeness auto
termination
  by (relation "measure length") (auto simp: length_dropWhile_le less_Suc_eq_le)

text \<open>The nine documented red flags, read off a feature map (an absent feature takes the
  default the heuristic gives it), and the number of them that are triggered.\<close>

definition red_flag_names :: "string list" where
  "red_flag_names =
    [''new_account'', ''high_following_ratio'', ''excessive_posting'', ''suspicious_profile_pic'',
     ''low_engagement'', ''suspicious_content'', ''isolated_network'', ''duplicate_content'',
     ''no_bio'']"

definition documented_red_flags :: "fmap \<Rightarrow> bool list" where
  "documented_red_flags f =
    [num_or (f ''account_age_days'') 365 < 30,
     num_or (f ''followers_to_following_ratio'') 1 < 0.1,
     num_or (f ''posts_per_day'') 2 > 20,
     num_or (f ''profile_pic_score'') 0 > 0.7,
     num_or (f ''engagement_rate'') 0.05 < 0.01,
     num_or (f ''suspicious_content_score'') 0 > 0.7,
     num_or (f ''network_isolation_score'') 0 > 0.7,
     num_or (f ''content_diversity'') 1 < 0.3,
     num_or (f ''bio_length'') 10 < 5]"

definition triggeredCount :: "fmap \<Rightarrow> nat" where
  "triggeredCount f = length (filter id (documented_red_flags f))"

text \<open>An entry that reads as a number: absent, a number or a boolean.\<close>

definition numeric_entry :: "pyval option \<Rightarrow> bool" where
  "numeric_entry v =
     (case v of None \<Rightarrow> True | Some (Num x) \<Rightarrow> True | Some (Flag b) \<Rightarrow> True
      | Some (Str s) \<Rightarrow> False | Some NoneVal \<Rightarrow> False)"

text \<open>A produced score: the entry is present, a number, and in the closed unit interval.\<close>

definition unit_score :: "pyval option \<Rightarrow> bool" where
  "unit_score v = (case v of Some (Num x) \<Rightarrow> 0 \<le> x \<and> x \<le> 1 | _ \<Rightarrow> False)"

definition content_score_keys :: "string list" where
  "content_score_keys = [''sentiment_score'', ''content_diversity'', ''suspicious_content_score'']"

definition activity_score_keys :: "string list" where
  "activity_score_keys =
     [''posting_regularity'', ''time_zone_consistency'', ''engagement_rate'', ''activity_score'']"

definition network_score_keys :: "string list" where
  "network_score_keys =
     [''network_isolation_score'', ''mutual_connection_ratio'', ''clustering_coefficient'',
      ''reciprocity'', ''network_score'']"

definition score_keys :: "string list" where
  "score_keys = content_score_keys @ activity_score_keys @ [''profile_pic_score'']
                @ network_score_keys"

section \<open>Sentiment\<close>

lemma sentiment_counts_acc:
  "sentiment_counts texts (p, n) = (p + positiveCount texts, n + negativeCount texts)"
  by (induction texts arbitrary: p n) (simp_all add: positiveCount_def negativeCount_def Let_def)

lemma sentiment_counts_zero:
  "sentiment_counts texts (0, 0) = (positiveCount texts, negativeCount texts)"
  by (simp add: sentiment_counts_acc)

lemma sentiment_fraction_bounds:
  fixes p n :: nat
  assumes "0 < p + n"
  shows "\<bar>real_of_int (int p - int n) / real (2 * (p + n))\<bar> \<le> 1 / 2"
proof -
  have "\<bar>real_of_int (int p - int n)\<bar> \<le> real (p + n)"
    by simp
  moreover have "0 < 2 * (p + n)"
    using assms by simp
  then have "0 < real (2 * (p + n))"
    by (simp only: of_nat_0_less_iff)
  ultimately show ?thesis
    by (simp add: field_simps)
qed

lemma analyze_sentiment_eq:
  "analyze_sentiment texts =
     (if positiveCount texts + negativeCount texts = 0 then 0.5
      else 0.5 + real_of_int (int (positiveCount texts) - int (negativeCount texts))
                 / real (2 * (positiveCount texts + negativeCount texts)))"
  by (simp add: analyze_sentiment_def sentiment_counts_zero Let_def)

lemma analyze_sentiment_bounds: "0 \<le> analyze_sentiment texts \<and> analyze_sentiment texts \<le> 1"
proof (cases "positiveCount texts + negativeCount texts = 0")
  case True
  then show ?thesis by (simp add: analyze_sentiment_eq)
next
  case False
  let ?p = "positiveCount texts" and ?n = "negativeCount texts"
  define f where "f = real_of_int (int ?p - int ?n) / real (2 * (?p + ?n))"
  from False have "0 < ?p + ?n" by simp
  then have "\<bar>f\<bar> \<le> 1 / 2"
    unfolding f_def by (rule sentiment_fraction_bounds)
  moreover have "analyze_sentiment texts = 0.5 + f"
    unfolding f_def using False by (subst analyze_sentiment_eq) simp
  ultimately show ?thesis by linarith
qed

text \<open>
  C9. The sentiment score of a list of texts is
  0.5 + (positiveCount - negativeCount) / (2 (positiveCount + negativeCount)) over the fixed
  word lists, is exactly 0.5 when no sentiment word occurs, and lies in [0,1] without any
  clamp. It holds for every list of texts, the non-empty ones included.
\<close>

theorem analyze_sentiment_formula:
  "analyze_sentiment texts =
     (if positiveCount texts + negativeCount texts = 0 then 0.5
      else 0.5 + (real (positiveCount texts) - real (negativeCount texts))
                 / (2 * (real (positiveCount texts) + real (negativeCount texts))))
   \<and> 0 \<le> analyze_sentiment texts \<and> analyze_sentiment texts \<le> 1"
proof -
  let ?p = "positiveCount texts" and ?n = "negativeCount texts"
  have "real_of_int (int ?p - int ?n) / real (2 * (?p + ?n))
        = (real ?p - real ?n) / (2 * (real ?p + real ?n))"
    by simp
  with analyze_sentiment_eq [of texts] analyze_sentiment_bounds [of texts]
  show ?thesis by simp
qed

lemma tokenize_example_1: "tokenize (lower ''I love this, great!'') = [''i'', ''love'', ''this'', ''great'']"
  by code_simp

lemma tokenize_example_2: "tokenize (lower ''bad day'') = [''bad'', ''day'']"
  by (simp add: tokenize_def lower_def lower_char_def is_punctuation_def split_ws_def is_space_def)

theorem analyze_sentiment_formula_witness:
  "positiveCount [''I love this, great!'', ''bad day''] = 2
   \<and> negativeCount [''I love this, great!'', ''bad day''] = 1
   \<and> analyze_sentiment [''I love this, great!'', ''bad day''] = 2 / 3"
proof -
  have p: "positiveCount [''I love this, great!'', ''bad day''] = 2"
    by (simp add: positiveCount_def tokenize_example_1 tokenize_example_2 positive_words_def)
  have n: "negativeCount [''I love this, great!'', ''bad day''] = 1"
    by (simp add: negativeCount_def tokenize_example_1 tokenize_example_2 negative_words_def)
  from analyze_sentiment_formula [of "[''I love this, great!'', ''bad day'']"] p n
  show ?thesis by simp
qed

section \<open>Mutual connections and reciprocity\<close>

text \<open>
  A profile that follows two accounts and has an empty follower list reports 0.5 for both
  fields, while the intersection of the two id sets over the non-empty following id set is 0.
\<close>

theorem neutral_ratio_without_followers:
  "network_analyze following_only_profile ''mutual_connection_ratio'' = Some (Num (1 / 2))
   \<and> network_analyze following_only_profile ''reciprocity'' = Some (Num (1 / 2))
   \<and> set (extract_user_ids (pd_following following_only_profile)) \<noteq> {}
   \<and> real (card (set (extract_user_ids (pd_followers following_only_profile))
                  \<inter> set (extract_user_ids (pd_following following_only_profile))))
       / real (card (set (extract_user_ids (pd_following following_only_profile)))) = 0"
  by (simp add: network_analyze_def following_only_profile_def empty_profile_def Let_def)

lemma network_ratio_fields:
  "network_analyze p ''mutual_connection_ratio''
     = Some (Num (if pd_followers p \<noteq> [] \<and> pd_following p \<noteq> []
                  then analyze_mutual_connections (pd_followers p) (pd_following p) else 0.5))
   \<and> network_analyze p ''reciprocity''
     = Some (Num (if pd_followers p \<noteq> [] \<and> pd_following p \<noteq> []
                  then calculate_reciprocity (pd_followers p) (pd_following p) else 0.5))"
  by (simp add: network_analyze_def Let_def)

text \<open>
  C10 (amended). For all followers and following lists the mutual-connection ratio and the
  reciprocity are the same number: the two functions both give the size of the intersection
  of the two id sets over the size of the following id set, and the neutral 0.5 when the
  following id set is empty. The two fields of the analyzer's output hold equal values for
  every profile: that number when both lists are non-empty, and the neutral 0.5 when either
  list is empty.
\<close>

theorem mutual_connection_ratio_eq_reciprocity:
  "analyze_mutual_connections fs gs = calculate_reciprocity fs gs
   \<and> calculate_reciprocity fs gs =
       (if set (extract_user_ids gs) = {} then 0.5
        else real (card (set (extract_user_ids fs) \<inter> set (extract_user_ids gs)))
             / real (card (set (extract_user_ids gs))))
   \<and> network_analyze p ''mutual_connection_ratio'' = network_analyze p ''reciprocity''
   \<and> network_analyze p ''reciprocity'' =
       Some (Num (if pd_followers p = [] \<or> pd_following p = []
                     \<or> set (extract_user_ids (pd_following p)) = {}
                  then 0.5
                  else real (card (set (extract_user_ids (pd_followers p))
                                   \<inter> set (extract_user_ids (pd_following p))))
                       / real (card (set (extract_user_ids (pd_following p))))))"
proof -
  have same: "analyze_mutual_connections fs gs = calculate_reciprocity fs gs" for fs gs
    by (simp add: analyze_mutual_connections_def calculate_reciprocity_def)
  have formula: "calculate_reciprocity fs gs =
       (if set (extract_user_ids gs) = {} then 0.5
        else real (card (set (extract_user_ids fs) \<inter> set (extract_user_ids gs)))
             / real (card (set (extract_user_ids gs))))" for fs gs
    by (simp add: calculate_reciprocity_def Let_def)
  have fields: "network_analyze p ''mutual_connection_ratio'' = network_analyze p ''reciprocity''"
    using network_ratio_fields [of p] by (simp add: same)
  have field_value: "network_analyze p ''reciprocity'' =
       Some (Num (if pd_followers p = [] \<or> pd_following p = []
                     \<or> set (extract_user_ids (pd_following p)) = {}
                  then 0.5
                  else real (card (set (extract_user_ids (pd_followers p))
                                   \<inter> set (extract_user_ids (pd_following p))))
                       / real (card (set (extract_user_ids (pd_following p))))))"
    using network_ratio_fields [of p] formula [of "pd_followers p" "pd_following p"]
    by auto
  from same formula fields field_value show ?thesis by blast
qed

theorem mutual_connection_ratio_eq_reciprocity_witness:
  "analyze_mutual_connections (pd_followers followed_profile) (pd_following followed_profile)
     = 2 / 3
   \<and> calculate_reciprocity (pd_followers followed_profile) (pd_following followed_profile)
     = 2 / 3
   \<and> network_analyze followed_profile ''mutual_connection_ratio'' = Some (Num (2 / 3))
   \<and> network_analyze followed_profile ''reciprocity'' = Some (Num (2 / 3))"
proof -
  let ?fs = "pd_followers followed_profile" and ?gs = "pd_following followed_profile"
  have fs: "?fs = [UserStr ''alice'', UserStr ''bob'', UserStr ''carol'']"
    and gs: "?gs = [UserStr ''bob'', UserStr ''carol'', UserStr ''dave'']"
    by (simp_all add: followed_profile_def empty_profile_def)
  have inter: "set (extract_user_ids ?fs) \<inter> set (extract_user_ids ?gs) = {''bob'', ''carol''}"
    unfolding fs gs by auto
  have G: "set (extract_user_ids ?gs) = {''bob'', ''carol'', ''dave''}"
    unfolding gs by auto
  have ci: "card (set (extract_user_ids ?fs) \<inter> set (extract_user_ids ?gs)) = 2"
    by (simp add: inter)
  have cg: "card (set (extract_user_ids ?gs)) = 3"
    by (simp add: G)
  have ratio: "real (card (set (extract_user_ids ?fs) \<inter> set (extract_user_ids ?gs)))
               / real (card (set (extract_user_ids ?gs))) = 2 / 3"
    by (simp add: ci cg)
  have ne: "?fs \<noteq> []" "?gs \<noteq> []" "set (extract_user_ids ?gs) \<noteq> {}"
    unfolding G by (simp_all add: fs gs)
  from mutual_connection_ratio_eq_reciprocity [of ?fs ?gs followed_profile] ratio ne
  show ?thesis by simp
qed

section \<open>Burst detection\<close>

lemma count_window_takeWhile:
  "count_window ts w wp j =
     (wp + length (takeWhile (\<lambda>u. datetime_le u w) (drop j ts)),
      j + length (takeWhile (\<lambda>u. datetime_le u w) (drop j ts)))"
proof (induction ts w wp j rule: count_window.induct)
  case (1 ts window_end window_posts j)
  show ?case
  proof (cases "j < length ts \<and> datetime_le (ts ! j) window_end")
    case True
    then have "drop j ts = ts ! j # drop (Suc j) ts"
      by (simp add: Cons_nth_drop_Suc)
    with True "1.IH" show ?thesis
      by (simp add: count_window.simps [of ts window_end window_posts j])
  next
    case False
    show ?thesis
    proof (cases "j < length ts")
      case True
      then have "drop j ts = ts ! j # drop (Suc j) ts"
        by (simp add: Cons_nth_drop_Suc)
      with False True show ?thesis
        by (simp add: count_window.simps [of ts window_end window_posts j])
    next
      case False
      then show ?thesis
        by (simp add: count_window.simps [of ts window_end window_posts j])
    qed
  qed
qed

lemma burst_window_nonneg: "0 \<le> burst_window"
  by (simp add: burst_window_def usec_per_second_def)

lemma add_timedelta_Inr:
  "add_timedelta dt d = Inr w \<Longrightarrow> instant w = instant dt + d \<and> wall dt + d \<le> datetime_max_wall"
  by (cases dt) (auto simp: add_timedelta_def split: if_splits)

lemma add_timedelta_Inl:
  "add_timedelta dt d = Inl e \<Longrightarrow> e = OverflowError \<and> datetime_max_wall < wall dt + d"
  by (auto simp: add_timedelta_def split: if_splits)

lemma add_timedelta_in_range:
  "wall dt + d \<le> datetime_max_wall \<Longrightarrow> \<exists>w. add_timedelta dt d = Inr w"
  by (simp add: add_timedelta_def)

lemma burst_loop_scan:
  "burst_loop ts i b = bind_err (greedy_scan (drop i ts)) (\<lambda>n. Inr (b + n))"
proof (induction ts i b rule: burst_loop.induct)
  case (1 ts i bursts)
  show ?case
  proof (cases "i < length ts")
    case False
    then show ?thesis by (simp add: burst_loop.simps [of ts i bursts] bind_err_def)
  next
    case True
    let ?rest = "drop (Suc i) ts"
    have dr: "drop i ts = ts ! i # ?rest"
      using True by (simp add: Cons_nth_drop_Suc)
    show ?thesis
    proof (cases "add_timedelta (ts ! i) burst_window")
      case (Inl e)
      with True show ?thesis
        by (simp add: burst_loop.simps [of ts i bursts] dr bind_err_def)
    next
      case (Inr w)
      let ?P = "\<lambda>u. datetime_le u w"
      let ?n = "length (takeWhile ?P ?rest)"
      from add_timedelta_Inr [OF Inr] burst_window_nonneg have head: "datetime_le (ts ! i) w"
        by (simp add: datetime_le_def)
      have cw: "count_window ts w 0 i = (Suc ?n, i + Suc ?n)"
        using head by (simp add: count_window_takeWhile dr)
      show ?thesis
      proof (cases "min_posts_for_burst \<le> Suc ?n")
        case yes: True
        have "burst_loop ts i bursts = burst_loop ts (i + Suc ?n) (bursts + 1)"
          using True yes by (simp add: burst_loop.simps [of ts i bursts] Inr cw)
        also have "\<dots> = bind_err (greedy_scan (drop (i + Suc ?n) ts)) (\<lambda>n. Inr (bursts + 1 + n))"
          using "1.IH"(1) [OF True Inr cw [symmetric] yes] by simp
        also have "drop (i + Suc ?n) ts = dropWhile ?P ?rest"
          by (simp add: dropWhile_eq_drop add.commute)
        finally show ?thesis
          using yes
          by (cases "greedy_scan (dropWhile ?P ?rest)")
             (simp_all add: dr Inr min_posts_for_burst_def bind_err_def)
      next
        case no: False
        have "burst_loop ts i bursts = burst_loop ts (i + 1) bursts"
          using True no by (simp add: burst_loop.simps [of ts i bursts] Inr cw)
        also have "\<dots> = bind_err (greedy_scan ?rest) (\<lambda>n. Inr (bursts + n))"
          using "1.IH"(2) [OF True Inr cw [symmetric] no] by simp
        finally show ?thesis
          using no by (simp add: dr Inr min_posts_for_burst_def)
      qed
    qed
  qed
qed

lemma takeWhile_instant:
  "map instant (takeWhile (\<lambda>u. instant u \<le> c) ts) = takeWhile (\<lambda>x. x \<le> c) (map instant ts)"
  by (simp add: takeWhile_map comp_def)

lemma dropWhile_instant:
  "map instant (dropWhile (\<lambda>u. instant u \<le> c) ts) = dropWhile (\<lambda>x. x \<le> c) (map instant ts)"
  by (simp add: dropWhile_map comp_def)

lemma greedy_scan_in_range:
  "\<forall>t \<in> set ts. wall t + burst_window \<le> datetime_max_wall \<Longrightarrow>
   greedy_scan ts = Inr (greedy_bursts (map instant ts))"
proof (induction ts rule: greedy_scan.induct)
  case 1
  show ?case by simp
next
  case (2 t ts)
  from "2.prems" have "wall t + burst_window \<le> datetime_max_wall" by simp
  from add_timedelta_in_range [OF this] obtain w where w: "add_timedelta t burst_window = Inr w"
    by blast
  from add_timedelta_Inr [OF w] have iw: "instant w = instant t + burst_window" by simp
  let ?P = "\<lambda>u. datetime_le u w"
  have P: "?P = (\<lambda>u. instant u \<le> instant t + burst_window)"
    by (simp add: datetime_le_def iw)
  have len: "length (takeWhile ?P ts)
             = length (takeWhile (\<lambda>x. x \<le> instant t + burst_window) (map instant ts))"
    unfolding P using arg_cong [OF takeWhile_instant, of length] by simp
  show ?case
  proof (cases "3 \<le> 1 + length (takeWhile ?P ts)")
    case True
    have "\<forall>u \<in> set (dropWhile ?P ts). wall u + burst_window \<le> datetime_max_wall"
      using "2.prems" by (auto dest: set_dropWhileD)
    from "2.IH"(1) [OF w True this]
    have "greedy_scan (dropWhile ?P ts) = Inr (greedy_bursts (map instant (dropWhile ?P ts)))" .
    also have "map instant (dropWhile ?P ts)
               = dropWhile (\<lambda>x. x \<le> instant t + burst_window) (map instant ts)"
      unfolding P by (rule dropWhile_instant)
    finally show ?thesis
      using True len by (simp add: w bind_err_def)
  next
    case False
    have "\<forall>u \<in> set ts. wall u + burst_window \<le> datetime_max_wall"
      using "2.prems" by simp
    from "2.IH"(2) [OF w False this] False len show ?thesis
      by (simp add: w)
  qed
qed

lemma greedy_bursts_short: "length ts < 3 \<Longrightarrow> greedy_bursts ts = 0"
proof (induction ts)
  case Nil
  then show ?case by simp
next
  case (Cons t ts)
  have "length (takeWhile (\<lambda>u. u \<le> t + burst_window) ts) \<le> length ts"
    by (rule length_takeWhile_le)
  with Cons show ?case by simp
qed

lemma map_insort_key: "map f (insort_key f x xs) = insort (f x) (map f xs)"
  by (induction xs) simp_all

lemma map_sort_key: "map f (sort_key f xs) = sort (map f xs)"
  by (induction xs) (simp_all add: map_insort_key)

lemma sorted_datetimes_cases:
  "sorted_datetimes ts =
     (if 2 \<le> length ts \<and> mixed_awareness ts then Inl TypeError
      else Inr (sort_key instant ts))"
proof (cases "length ts < 2")
  case True
  then have "sort_key instant ts = ts"
    by (cases ts) (auto simp: length_Suc_conv)
  with True show ?thesis by (simp add: sorted_datetimes_def)
next
  case False
  then show ?thesis
    by (auto simp: sorted_datetimes_def mixed_awareness_def)
qed

lemma detect_posting_bursts_scan:
  "detect_posting_bursts ts =
     (if length ts < 3 then Inr 0
      else if mixed_awareness ts then Inl TypeError
      else greedy_scan (sort_key instant ts))"
proof (cases "length ts < 3")
  case True
  then show ?thesis by (simp add: detect_posting_bursts_def)
next
  case False
  have "bind_err (greedy_scan xs) (\<lambda>n. Inr (0 + n)) = greedy_scan xs" for xs
    by (cases "greedy_scan xs") (simp_all add: bind_err_def)
  with False show ?thesis
    by (simp add: detect_posting_bursts_def sorted_datetimes_cases bind_err_def burst_loop_scan)
qed

lemma detect_posting_bursts_in_range:
  assumes "\<not> mixed_awareness ts"
    and "\<forall>t \<in> set ts. wall t + burst_window \<le> datetime_max_wall"
  shows "detect_posting_bursts ts = Inr (greedy_bursts (sort (map instant ts)))"
proof (cases "length ts < 3")
  case True
  then have "greedy_bursts (sort (map instant ts)) = 0"
    by (intro greedy_bursts_short) simp
  with True show ?thesis by (simp add: detect_posting_bursts_def)
next
  case False
  have "\<forall>t \<in> set (sort_key instant ts). wall t + burst_window \<le> datetime_max_wall"
    using assms(2) by simp
  from greedy_scan_in_range [OF this] False assms(1) show ?thesis
    by (simp add: detect_posting_bursts_scan map_sort_key)
qed

lemma greedy_bursts_positive_iff:
  "sorted ts \<Longrightarrow>
     (0 < greedy_bursts ts) =
     (\<exists>i. i + 2 < length ts \<and> ts ! (i + 2) \<le> ts ! i + burst_window)"
proof (induction ts)
  case Nil
  then show ?case by simp
next
  case (Cons t ts)
  let ?P = "\<lambda>u. u \<le> t + burst_window"
  from Cons.prems have sorted_tl: "sorted ts" and le_all: "\<forall>u \<in> set ts. t \<le> u"
    by simp_all
  show ?case
  proof (cases "2 \<le> length (takeWhile ?P ts)")
    case True
    then have "1 < length (takeWhile ?P ts)" by simp
    then have "takeWhile ?P ts ! 1 \<in> set (takeWhile ?P ts)"
      by (rule nth_mem)
    then have "?P (takeWhile ?P ts ! 1)"
      by (rule set_takeWhileD [THEN conjunct2])
    moreover have "takeWhile ?P ts ! 1 = ts ! 1"
      using \<open>1 < length (takeWhile ?P ts)\<close> by (rule takeWhile_nth)
    moreover have "2 \<le> length ts"
      using True length_takeWhile_le [of ?P ts] by linarith
    ultimately have "0 + 2 < length (t # ts) \<and> (t # ts) ! (0 + 2) \<le> (t # ts) ! 0 + burst_window"
      by simp
    then have "\<exists>i. i + 2 < length (t # ts) \<and> (t # ts) ! (i + 2) \<le> (t # ts) ! i + burst_window"
      by (rule exI)
    moreover have "0 < greedy_bursts (t # ts)"
      using True by simp
    ultimately show ?thesis by simp
  next
    case False
    then have g: "greedy_bursts (t # ts) = greedy_bursts ts" by simp
    have "(\<exists>i. i + 2 < length (t # ts) \<and> (t # ts) ! (i + 2) \<le> (t # ts) ! i + burst_window)
          = (\<exists>i. i + 2 < length ts \<and> ts ! (i + 2) \<le> ts ! i + burst_window)"
    proof
      assume "\<exists>i. i + 2 < length (t # ts) \<and> (t # ts) ! (i + 2) \<le> (t # ts) ! i + burst_window"
      then obtain i where i: "i + 2 < length (t # ts)"
        "(t # ts) ! (i + 2) \<le> (t # ts) ! i + burst_window" by blast
      show "\<exists>i. i + 2 < length ts \<and> ts ! (i + 2) \<le> ts ! i + burst_window"
      proof (cases i)
        case 0
        with i have len: "2 \<le> length ts" and p1: "ts ! 1 \<le> t + burst_window" by simp_all
        from sorted_tl len have "ts ! 0 \<le> ts ! 1"
          by (intro sorted_nth_mono) simp_all
        with p1 have p0: "ts ! 0 \<le> t + burst_window" by simp
        have "2 \<le> length (takeWhile ?P ts)"
        proof (rule length_takeWhile_less_P_nth)
          fix k :: nat assume "k < 2"
          then have "k = 0 \<or> k = 1" by auto
          with p0 p1 show "ts ! k \<le> t + burst_window" by auto
        qed (rule len)
        with False show ?thesis by simp
      next
        case (Suc k)
        with i have "k + 2 < length ts \<and> ts ! (k + 2) \<le> ts ! k + burst_window" by simp
        then show ?thesis by (rule exI)
      qed
    next
      assume "\<exists>i. i + 2 < length ts \<and> ts ! (i + 2) \<le> ts ! i + burst_window"
      then obtain i where "i + 2 < length ts" "ts ! (i + 2) \<le> ts ! i + burst_window" by blast
      then have "Suc i + 2 < length (t # ts)
                 \<and> (t # ts) ! (Suc i + 2) \<le> (t # ts) ! Suc i + burst_window" by simp
      then show "\<exists>i. i + 2 < length (t # ts) \<and> (t # ts) ! (i + 2) \<le> (t # ts) ! i + burst_window"
        by (rule exI)
    qed
    with g Cons.IH [OF sorted_tl] show ?thesis by simp
  qed
qed

text \<open>
  Posts at 23:15, 23:17, 23:20 and 23:55 on 9999-12-31 are posts at 0, 2, 5 and 40 minutes:
  the first three are counted as a burst, and opening the window at the fourth raises
  \<open>OverflowError\<close>, so no burst count is reported.
\<close>

theorem bursts_overflow_at_datetime_max:
  "detect_posting_bursts
     [Naive last_evening, Naive (last_evening + 2 * 60 * usec_per_second),
      Naive (last_evening + 5 * 60 * usec_per_second),
      Naive (last_evening + 40 * 60 * usec_per_second)] = Inl OverflowError"
  by (simp add: detect_posting_bursts_scan mixed_awareness_def last_evening_def
      add_timedelta_def datetime_le_def datetime_max_wall_def burst_window_def usec_per_day_def
      usec_per_second_def bind_err_def)

text \<open>
  C8 (amended). Burst detection sorts the timestamps (a list that mixes naive and aware
  datetimes cannot be sorted and raises \<open>TypeError\<close>) and runs the non-overlapping greedy scan
  with a ten-minute window and at least three posts per burst, resuming after the last post
  of a detected burst; opening a window at a post within ten minutes of \<open>datetime.max\<close>
  raises \<open>OverflowError\<close>. When no timestamp is that late, the result is the burst count of
  the specification's scan on the sorted instants, which is positive exactly when some three
  consecutive posts lie within ten minutes. Posts at 0, 2 and 5 minutes and a fourth at 40
  minutes give exactly one burst whenever ten minutes after the fourth post is still
  representable.
\<close>

theorem posting_bursts_greedy_scan:
  "detect_posting_bursts ts =
     (if length ts < 3 then Inr 0
      else if mixed_awareness ts then Inl TypeError
      else greedy_scan (sort_key instant ts))
   \<and> (\<not> mixed_awareness ts \<and> (\<forall>t \<in> set ts. wall t + burst_window \<le> datetime_max_wall) \<longrightarrow>
        detect_posting_bursts ts = Inr (greedy_bursts (sort (map instant ts))))
   \<and> (sorted us \<longrightarrow>
        (0 < greedy_bursts us) =
        (\<exists>i. i + 2 < length us \<and> us ! (i + 2) \<le> us ! i + burst_window))
   \<and> (t0 + 50 * 60 * usec_per_second \<le> datetime_max_wall \<longrightarrow>
        detect_posting_bursts
          [Naive t0, Naive (t0 + 2 * 60 * usec_per_second),
           Naive (t0 + 5 * 60 * usec_per_second), Naive (t0 + 40 * 60 * usec_per_second)] = Inr 1)"
proof (intro conjI impI)
  show "detect_posting_bursts ts =
     (if length ts < 3 then Inr 0
      else if mixed_awareness ts then Inl TypeError
      else greedy_scan (sort_key instant ts))"
    by (rule detect_posting_bursts_scan)
next
  assume "\<not> mixed_awareness ts \<and> (\<forall>t \<in> set ts. wall t + burst_window \<le> datetime_max_wall)"
  then show "detect_posting_bursts ts = Inr (greedy_bursts (sort (map instant ts)))"
    by (intro detect_posting_bursts_in_range) simp_all
next
  assume "sorted us"
  then show "(0 < greedy_bursts us) =
        (\<exists>i. i + 2 < length us \<and> us ! (i + 2) \<le> us ! i + burst_window)"
    by (rule greedy_bursts_positive_iff)
next
  let ?ts = "[Naive t0, Naive (t0 + 2 * 60 * usec_per_second),
           Naive (t0 + 5 * 60 * usec_per_second), Naive (t0 + 40 * 60 * usec_per_second)]"
  assume "t0 + 50 * 60 * usec_per_second \<le> datetime_max_wall"
  then have "\<forall>t \<in> set ?ts. wall t + burst_window \<le> datetime_max_wall"
    by (simp add: burst_window_def usec_per_second_def)
  moreover have "\<not> mixed_awareness ?ts"
    by (simp add: mixed_awareness_def)
  ultimately have "detect_posting_bursts ?ts = Inr (greedy_bursts (sort (map instant ?ts)))"
    by (rule detect_posting_bursts_in_range [rotated])
  then show "detect_posting_bursts ?ts = Inr 1"
    by (simp add: burst_window_def usec_per_second_def)
qed

theorem posting_bursts_greedy_scan_witness:
  "\<not> mixed_awareness [Naive 0, Naive 120000000, Naive 300000000, Naive 2400000000]
   \<and> list_all (\<lambda>t. wall t + burst_window \<le> datetime_max_wall)
         [Naive 0, Naive 120000000, Naive 300000000, Naive 2400000000]
   \<and> sorted [0, 120000000, 300000000, 2400000000 :: int]
   \<and> 0 + 50 * 60 * usec_per_second \<le> datetime_max_wall
   \<and> 0 < greedy_bursts [0, 120000000, 300000000, 2400000000]
   \<and> detect_posting_bursts [Naive 0, Naive 120000000, Naive 300000000, Naive 2400000000]
       = Inr (greedy_bursts
                (sort (map instant [Naive 0, Naive 120000000, Naive 300000000, Naive 2400000000])))
   \<and> detect_posting_bursts
        [Naive 0, Naive 120000000, Naive 300000000, Naive 2400000000] = Inr 1"
proof -
  let ?ts = "[Naive 0, Naive 120000000, Naive 300000000, Naive 2400000000]"
  let ?us = "[0, 120000000, 300000000, 2400000000 :: int]"
  have m: "\<not> mixed_awareness ?ts" by (simp add: mixed_awareness_def)
  have r: "\<forall>t \<in> set ?ts. wall t + burst_window \<le> datetime_max_wall"
    by (simp add: burst_window_def datetime_max_wall_def usec_per_day_def usec_per_second_def)
  have s: "sorted ?us" by simp
  have h: "0 + 50 * 60 * usec_per_second \<le> datetime_max_wall"
    by (simp add: datetime_max_wall_def usec_per_day_def usec_per_second_def)
  have "0 + 2 < length ?us \<and> ?us ! (0 + 2) \<le> ?us ! 0 + burst_window"
    by (simp add: burst_window_def usec_per_second_def)
  then have ex: "\<exists>i. i + 2 < length ?us \<and> ?us ! (i + 2) \<le> ?us ! i + burst_window"
    by (rule exI)
  note inst = posting_bursts_greedy_scan [of ?ts ?us 0]
  from inst s ex have pos: "0 < greedy_bursts ?us" by blast
  from inst h have "detect_posting_bursts
          [Naive 0, Naive (0 + 2 * 60 * usec_per_second),
           Naive (0 + 5 * 60 * usec_per_second), Naive (0 + 40 * 60 * usec_per_second)] = Inr 1"
    by blast
  then have one: "detect_posting_bursts ?ts = Inr 1"
    by (simp add: usec_per_second_def)
  from r have r': "list_all (\<lambda>t. wall t + burst_window \<le> datetime_max_wall) ?ts"
    by (simp only: list_all_iff)
  from inst m r
  have scan: "detect_posting_bursts ?ts = Inr (greedy_bursts (sort (map instant ?ts)))"
    by blast
  from m r' s h pos scan one show ?thesis by blast
qed

section \<open>Feature extraction\<close>

lemma bind_err_Inr [simp]: "bind_err (Inr x) f = f x"
  by (simp add: bind_err_def)

lemma bind_err_Inl [simp]: "bind_err (Inl e) f = Inl e"
  by (simp add: bind_err_def)

lemma bind_err_eq_Inr:
  "bind_err r f = Inr y \<longleftrightarrow> (\<exists>x. r = Inr x \<and> f x = Inr y)"
  by (cases r) simp_all

lemma hour_of_less: "hour_of dt < 24"
  by (simp add: hour_of_def nat_less_iff)

lemma fold_count_length:
  "length (fold (\<lambda>hour hc. hc[hour := hc ! hour + 1]) hs (hc :: nat list)) = length hc"
  by (induction hs arbitrary: hc) simp_all

lemma fold_count_sum:
  "\<forall>h \<in> set hs. h < length hc \<Longrightarrow>
   sum_list (fold (\<lambda>hour hc. hc[hour := hc ! hour + 1]) hs (hc :: nat list)) = sum_list hc + length hs"
proof (induction hs arbitrary: hc)
  case Nil
  then show ?case by simp
next
  case (Cons h hs)
  then have h: "h < length hc" by simp
  have "sum_list (hc[h := hc ! h + 1]) = sum_list hc + 1"
    using h by (simp add: sum_list_update)
  moreover have "\<forall>k \<in> set hs. k < length (hc[h := hc ! h + 1])"
    using Cons.prems by simp
  ultimately show ?case
    using Cons.IH [of "hc[h := hc ! h + 1]"] by simp
qed

lemma sum_count_hours: "sum_list (count_hours (map hour_of ts)) = length ts"
proof -
  have "\<forall>h \<in> set (map hour_of ts). h < length (replicate 24 (0::nat))"
    by (simp add: hour_of_less)
  from fold_count_sum [OF this] show ?thesis
    by (simp add: count_hours_def)
qed

lemma positive_hour_counts:
  assumes "ts \<noteq> []"
  shows "filter (\<lambda>c. c > 0) (count_hours (map hour_of ts)) \<noteq> []"
proof
  assume "filter (\<lambda>c. c > 0) (count_hours (map hour_of ts)) = []"
  then have "\<forall>c \<in> set (count_hours (map hour_of ts)). c = 0"
    by (simp add: filter_empty_conv)
  then have "sum_list (count_hours (map hour_of ts)) = 0"
    by simp
  with assms show False by (simp add: sum_count_hours)
qed

lemma entropy_terms_raises:
  "ps \<noteq> [] \<Longrightarrow> \<forall>p \<in> set ps. p > 0 \<Longrightarrow> entropy_terms ps = Inl AttributeError"
  by (cases ps) (simp_all add: float_log_def)

lemma posting_time_features_raises:
  assumes "ts \<noteq> []"
  shows "posting_time_features ts =
           (if 2 \<le> length ts \<and> mixed_awareness ts then Inl TypeError else Inl AttributeError)"
proof -
  let ?probs = "map (\<lambda>c. real c / real (length (map hour_of ts)))
                  (filter (\<lambda>c. c > 0) (count_hours (map hour_of ts)))"
  have ne: "?probs \<noteq> []"
    using positive_hour_counts [OF assms] by simp
  have pos: "\<forall>p \<in> set ?probs. p > 0"
    using assms by auto
  have ent: "entropy_terms ?probs = Inl AttributeError"
    using ne pos by (rule entropy_terms_raises)
  have med: "median_hours ts =
      (if 2 \<le> length ts \<and> mixed_awareness ts then Inl TypeError
       else Inr (if length ts > 1
                 then (let hours_between_posts =
                             sort (map (\<lambda>d. total_seconds d / 3600)
                                     (consecutive_diffs (map instant (sort_key instant ts))))
                       in hours_between_posts ! (length hours_between_posts div 2))
                 else 24))"
    by (auto simp: median_hours_def sorted_datetimes_def mixed_awareness_def Let_def)
  show ?thesis
    unfolding posting_time_features_def med using ne ent by (simp add: Let_def)
qed

lemma extract_activity_features_raises:
  assumes "collect_timestamps lib (pd_posts p) \<noteq> []"
  shows "extract_activity_features lib p =
           (if 2 \<le> length (collect_timestamps lib (pd_posts p))
               \<and> mixed_awareness (collect_timestamps lib (pd_posts p))
            then Inl TypeError else Inl AttributeError)"
  using assms by (simp add: extract_activity_features_def Let_def posting_time_features_raises)

lemma extract_activity_features_no_timestamps:
  assumes "collect_timestamps lib (pd_posts p) = []"
  shows "extract_activity_features lib p =
           Inr (map_of [(''posts_per_day'', Num 0),
                        (''median_hours_between_posts'', Num 24),
                        (''posting_time_entropy'', Num 0),
                        (''time_consistency'', Num 0.5),
                        (''engagement_rate'', Num 0)])"
  using assms by (simp add: extract_activity_features_def Let_def num_or_def)

lemma content_features_dom:
  "dom (extract_content_features p) =
     {''bio_length'', ''has_external_url'', ''avg_post_length'', ''hashtags_per_post'',
      ''urls_per_post'', ''mentions_per_post'', ''emojis_per_post''}"
  by (auto simp: extract_content_features_def Let_def dom_map_of_conv_image_fst)

lemma profile_features_dom:
  "dom (extract_profile_features p) =
     {''is_verified'', ''is_private'', ''username_length'', ''username_digit_ratio'',
      ''username_underscore_count'', ''username_max_consecutive_digits'',
      ''profile_completeness''}"
  by (auto simp: extract_profile_features_def Let_def dom_map_of_conv_image_fst)

lemma platform_features_dom:
  "dom (extract_platform_features p) \<subseteq>
     {''retweet_ratio'', ''has_default_profile_image'', ''source_count'', ''is_twitter_blue'',
      ''is_business_account'', ''has_highlights'', ''has_igtv'', ''post_to_follower_ratio'',
      ''page_likes_count'', ''profile_details_completeness'', ''has_profile_details''}"
  by (auto simp: extract_platform_features_def extract_twitter_features_def
      extract_instagram_features_def extract_facebook_features_def Let_def
      dom_map_of_conv_image_fst)

lemma later_extractors_silent:
  assumes "k \<in> account_keys"
  shows "(a ++ b ++ extract_content_features p ++ extract_profile_features p
          ++ extract_platform_features p) k = (a ++ b) k"
proof -
  have "k \<notin> dom (extract_content_features p)"
    using assms unfolding content_features_dom account_keys_def by auto
  moreover have "k \<notin> dom (extract_profile_features p)"
    using assms unfolding profile_features_dom account_keys_def by auto
  moreover have "k \<notin> dom (extract_platform_features p)"
    using assms platform_features_dom [of p] unfolding account_keys_def by auto
  ultimately show ?thesis
    by (simp add: map_add_dom_app_simps)
qed

lemma extract_features_Inr:
  assumes "extract_features lib now p = Inr f"
  shows "collect_timestamps lib (pd_posts p) = []"
    and "f = extract_account_metrics lib now p
             ++ map_of [(''posts_per_day'', Num 0),
                        (''median_hours_between_posts'', Num 24),
                        (''posting_time_entropy'', Num 0),
                        (''time_consistency'', Num 0.5),
                        (''engagement_rate'', Num 0)]
             ++ extract_content_features p ++ extract_profile_features p
             ++ extract_platform_features p"
proof -
  show none: "collect_timestamps lib (pd_posts p) = []"
  proof (rule ccontr)
    assume "collect_timestamps lib (pd_posts p) \<noteq> []"
    from extract_activity_features_raises [OF this] assms show False
      by (simp add: extract_features_def split: if_splits)
  qed
  from assms show "f = extract_account_metrics lib now p
             ++ map_of [(''posts_per_day'', Num 0),
                        (''median_hours_between_posts'', Num 24),
                        (''posting_time_entropy'', Num 0),
                        (''time_consistency'', Num 0.5),
                        (''engagement_rate'', Num 0)]
             ++ extract_content_features p ++ extract_profile_features p
             ++ extract_platform_features p"
    by (auto simp: extract_features_def extract_activity_features_no_timestamps [OF none])
qed

lemma extract_features_total_without_timestamps:
  "collect_timestamps lib (pd_posts p) = [] \<Longrightarrow> \<exists>f. extract_features lib now p = Inr f"
  by (simp add: extract_features_def extract_activity_features_no_timestamps)

lemma account_age_entry:
  "extract_account_metrics lib now p ''account_age_days'' =
     (case pd_creation_date p of
        None \<Rightarrow> Some (Num 365)
      | Some s \<Rightarrow> if s = [] then Some (Num 365)
                  else map_option (\<lambda>d. Num (real_of_int d)) (parsed_account_age lib now s))"
  by (simp add: extract_account_metrics_def Let_def opt_entry_def
      split: option.splits)

lemma post_count_entry:
  "extract_account_metrics lib now p ''post_count'' =
     Some (Num (case pd_post_count p of Some c \<Rightarrow> real_of_int c
                | None \<Rightarrow> real (length (pd_posts p))))"
  by (simp add: extract_account_metrics_def Let_def opt_entry_def
      split: option.splits)

lemma extract_features_account_age:
  assumes "extract_features lib now p = Inr f"
  shows "f ''account_age_days'' = extract_account_metrics lib now p ''account_age_days''"
  unfolding extract_features_Inr(2) [OF assms]
  by (subst later_extractors_silent) (simp_all add: account_keys_def map_add_def)

lemma extract_features_post_count:
  assumes "extract_features lib now p = Inr f"
  shows "f ''post_count'' = extract_account_metrics lib now p ''post_count''"
  unfolding extract_features_Inr(2) [OF assms]
  by (subst later_extractors_silent) (simp_all add: account_keys_def map_add_def)

lemma extract_features_posts_per_day:
  assumes "extract_features lib now p = Inr f"
  shows "f ''posts_per_day'' = Some (Num 0)"
  unfolding extract_features_Inr(2) [OF assms]
  by (subst later_extractors_silent) (simp_all add: account_keys_def map_add_def)

lemma no_posts_no_timestamps: "pd_posts p = [] \<Longrightarrow> collect_timestamps lib (pd_posts p) = []"
  by (simp add: collect_timestamps_def List.map_filter_simps)

text \<open>
  C5. The specification gives \<open>account_age_days\<close> the default 365 whenever the creation
  date is missing or unparsable, so that the entry is always present. For the creation date
  \<open>not-a-date\<close>, which none of the three formats parses, the extractor returns a feature map
  without any \<open>account_age_days\<close> entry.
\<close>

theorem unparsable_creation_date_no_account_age:
  "\<exists>f. extract_features sample_lib now (empty_profile\<lparr>pd_creation_date := Some ''not-a-date''\<rparr>)
          = Inr f
       \<and> f ''account_age_days'' = None"
proof -
  let ?p = "empty_profile\<lparr>pd_creation_date := Some ''not-a-date''\<rparr>"
  have "collect_timestamps sample_lib (pd_posts ?p) = []"
    by (rule no_posts_no_timestamps) (simp add: empty_profile_def)
  then obtain f where f: "extract_features sample_lib now ?p = Inr f"
    using extract_features_total_without_timestamps by blast
  have "parsed_account_age sample_lib now ''not-a-date'' = None"
    by (simp add: parsed_account_age_def creation_date_formats_def sample_lib_def)
  then have "extract_account_metrics sample_lib now ?p ''account_age_days'' = None"
    by (simp add: account_age_entry empty_profile_def)
  with extract_features_account_age [OF f] f show ?thesis by simp
qed

text \<open>
  C6. The specification gives posts_per_day = postCount / max(accountAgeDays, 1). For a profile
  with a post count of 10 and no creation date the extractor returns post_count 10,
  account_age_days 365 and posts_per_day 0, not 10/365 (see also
  \<open>extract_features_posts_per_day\<close>: the entry is 0 for every profile).
\<close>

theorem posts_per_day_is_zero:
  "\<exists>f. extract_features sample_lib now (empty_profile\<lparr>pd_post_count := Some 10\<rparr>) = Inr f
       \<and> f ''post_count'' = Some (Num 10)
       \<and> f ''account_age_days'' = Some (Num 365)
       \<and> f ''posts_per_day'' = Some (Num 0)"
proof -
  let ?p = "empty_profile\<lparr>pd_post_count := Some 10\<rparr>"
  have "collect_timestamps sample_lib (pd_posts ?p) = []"
    by (rule no_posts_no_timestamps) (simp add: empty_profile_def)
  then obtain f where f: "extract_features sample_lib now ?p = Inr f"
    using extract_features_total_without_timestamps by blast
  have "f ''post_count'' = Some (Num 10)"
    by (simp add: extract_features_post_count [OF f] post_count_entry empty_profile_def)
  moreover have "f ''account_age_days'' = Some (Num 365)"
    by (simp add: extract_features_account_age [OF f] account_age_entry empty_profile_def)
  moreover note extract_features_posts_per_day [OF f]
  ultimately show ?thesis using f by simp
qed

text \<open>
  C4. The specification has feature extraction and the whole analysis return for every
  profile, those with a parsable timestamp included. For a profile whose single post has
  the Unix timestamp 0, feature extraction raises \<open>AttributeError\<close> and so does
  \<open>analyze_profile\<close>, with or without a model (see also
  \<open>extract_activity_features_raises\<close>: every profile with a parsed timestamp raises).
\<close>

theorem timestamped_post_raises:
  "extract_features sample_lib now
     (empty_profile\<lparr>pd_posts := [PostDict (empty_post\<lparr>post_timestamp := Some (StampNum 0)\<rparr>)]\<rparr>)
     = Inl AttributeError
   \<and> analyze_profile sample_lib clk model
     (empty_profile\<lparr>pd_posts := [PostDict (empty_post\<lparr>post_timestamp := Some (StampNum 0)\<rparr>)]\<rparr>)
     = Inl AttributeError"
proof -
  let ?p = "empty_profile\<lparr>pd_posts := [PostDict (empty_post\<lparr>post_timestamp := Some (StampNum 0)\<rparr>)]\<rparr>"
  have ts: "collect_timestamps sample_lib (pd_posts ?p) = [Naive (719162 * usec_per_day)]"
    by (simp add: collect_timestamps_def List.map_filter_simps empty_profile_def empty_post_def
        sample_lib_def)
  have "extract_activity_features sample_lib ?p = Inl AttributeError"
    by (subst extract_activity_features_raises) (simp_all only: ts, simp_all)
  then have "extract_features sample_lib n ?p = Inl AttributeError" for n
    by (simp add: extract_features_def)
  then show ?thesis
    by (simp add: analyze_profile_def combined_features_def)
qed

section \<open>The heuristic decision\<close>

lemma num_get_numeric:
  "numeric_entry (f k) \<Longrightarrow> num_get f k d = Inr (num_or (f k) d)"
  by (auto simp: numeric_entry_def num_get_def num_or_def split: option.splits pyval.splits)

lemma num_get_Inr:
  "num_get f k d = Inr x \<Longrightarrow> x = num_or (f k) d"
  by (auto simp: num_get_def num_or_def split: option.splits pyval.splits)

lemma num_get_Inr_numeric:
  "num_get f k d = Inr x \<Longrightarrow> numeric_entry (f k)"
  by (auto simp: num_get_def numeric_entry_def split: option.splits pyval.splits)

lemma red_flags_Inr:
  assumes "red_flags f = Inr flags"
  shows "flags = zip red_flag_names (documented_red_flags f)"
  using assms
  by (auto simp: red_flags_def bind_err_eq_Inr red_flag_names_def documented_red_flags_def
      dest!: num_get_Inr)

lemma red_flags_total:
  assumes "\<forall>k \<in> {''account_age_days'', ''followers_to_following_ratio'', ''posts_per_day'',
     ''profile_pic_score'', ''engagement_rate'', ''suspicious_content_score'',
     ''network_isolation_score'', ''content_diversity'', ''bio_length''}. numeric_entry (f k)"
  shows "red_flags f = Inr (zip red_flag_names (documented_red_flags f))"
  using assms
  by (simp add: red_flags_def num_get_numeric red_flag_names_def documented_red_flags_def)

lemma length_documented_red_flags: "length (documented_red_flags f) = 9"
  by (simp add: documented_red_flags_def)

lemma triggeredCount_le: "triggeredCount f \<le> 9"
  unfolding triggeredCount_def
  using length_filter_le [of id "documented_red_flags f"]
  by (simp add: length_documented_red_flags)

lemma heuristic_detection_Inr:
  assumes "heuristic_detection f = Inr (prob, fake, imp)"
  shows "prob = min (0.3 + (real (triggeredCount f) / 9) * 0.7) 1"
    and "fake = (0.7 \<le> prob)"
    and "imp = map_of (zip red_flag_names
                 (map (\<lambda>b. if b then 0.1 else 0) (documented_red_flags f)))"
proof -
  from assms obtain flags where fl: "red_flags f = Inr flags"
    and res: "(prob, fake, imp) =
      (let red_flag_count = length (filter snd flags);
           prob = min (0.3 + (real red_flag_count / real (length flags)) * 0.7) 1.0;
           fake = (prob \<ge> 0.7);
           importance = map_of (map (\<lambda>(flag_name, is_triggered).
                                      (flag_name, if is_triggered then 0.1 else 0.0)) flags)
       in (prob, fake, importance))"
    by (auto simp: heuristic_detection_def bind_err_eq_Inr Let_def)
  have flags: "flags = zip red_flag_names (documented_red_flags f)"
    using fl by (rule red_flags_Inr)
  have len: "length flags = 9"
    by (simp add: flags red_flag_names_def documented_red_flags_def)
  have cnt: "length (filter snd flags) = triggeredCount f"
    unfolding flags triggeredCount_def
    by (simp add: red_flag_names_def documented_red_flags_def)
  have imp_eq: "map (\<lambda>(flag_name, is_triggered). (flag_name, if is_triggered then 0.1 else (0.0::real))) flags
      = zip red_flag_names (map (\<lambda>b. if b then 0.1 else 0) (documented_red_flags f))"
    unfolding flags by (simp add: red_flag_names_def documented_red_flags_def)
  from res have r1: "prob = min (0.3 + (real (length (filter snd flags)) / real (length flags)) * 0.7) 1.0"
    unfolding Let_def prod.inject by (rule conjunct1)
  from res have r2: "fake = (min (0.3 + (real (length (filter snd flags)) / real (length flags)) * 0.7) 1.0 \<ge> 0.7)"
    unfolding Let_def prod.inject by (elim conjE)
  from res have r3: "imp = map_of (map (\<lambda>(flag_name, is_triggered).
                                      (flag_name, if is_triggered then 0.1 else 0.0)) flags)"
    unfolding Let_def prod.inject by (elim conjE)
  show "prob = min (0.3 + (real (triggeredCount f) / 9) * 0.7) 1"
    unfolding r1 len cnt by simp
  show "fake = (0.7 \<le> prob)"
    unfolding r2 r1 ..
  show "imp = map_of (zip red_flag_names
                 (map (\<lambda>b. if b then 0.1 else 0) (documented_red_flags f)))"
    unfolding r3 imp_eq ..
qed

lemma heuristic_probability_range:
  assumes "heuristic_detection f = Inr (prob, fake, imp)"
  shows "0.3 \<le> prob \<and> prob \<le> 1"
proof -
  have "prob = min (0.3 + (real (triggeredCount f) / 9) * 0.7) 1"
    using assms by (rule heuristic_detection_Inr)
  then show ?thesis by simp
qed

text \<open>
  C3. Whenever the heuristic fallback returns, it has evaluated exactly the nine documented
  red flags (account age < 30, ratio < 0.1, posts per day > 20, picture score > 0.7,
  engagement < 0.01, suspicious content > 0.7, isolation > 0.7, diversity < 0.3, bio length
  < 5); the probability is min(0.3 + (triggeredCount/9) 0.7, 1), the flag is the threshold
  test at 0.7 and each flag's importance is 0.1 if triggered and 0 otherwise. With no flag
  triggered the probability is exactly 0.3 and the profile is not flagged; with all nine it
  is exactly 1 and the profile is flagged.
\<close>

theorem heuristic_detection_formula:
  "heuristic_detection f = Inr (prob, fake, imp) \<longrightarrow>
     length (documented_red_flags f) = 9
     \<and> prob = min (0.3 + (real (triggeredCount f) / 9) * 0.7) 1.0
     \<and> fake = (prob \<ge> 0.7)
     \<and> map imp red_flag_names
         = map (\<lambda>b. Some (if b then 0.1 else 0.0)) (documented_red_flags f)
     \<and> dom imp = set red_flag_names
     \<and> (triggeredCount f = 0 \<longrightarrow> prob = 0.3 \<and> \<not> fake)
     \<and> (triggeredCount f = 9 \<longrightarrow> prob = 1.0 \<and> fake)"
proof
  assume h: "heuristic_detection f = Inr (prob, fake, imp)"
  note p = heuristic_detection_Inr(1) [OF h]
  note fk = heuristic_detection_Inr(2) [OF h]
  note im = heuristic_detection_Inr(3) [OF h]
  have a: "map imp red_flag_names
         = map (\<lambda>b. Some (if b then 0.1 else 0.0)) (documented_red_flags f)"
    unfolding im by (simp add: red_flag_names_def documented_red_flags_def)
  have b: "dom imp = set red_flag_names"
    unfolding im by (simp add: dom_map_of_zip red_flag_names_def documented_red_flags_def)
  have c: "triggeredCount f = 0 \<longrightarrow> prob = 0.3 \<and> \<not> fake"
    using p fk by simp
  have d: "triggeredCount f = 9 \<longrightarrow> prob = 1.0 \<and> fake"
    using p fk by simp
  from p fk a b c d show "length (documented_red_flags f) = 9
     \<and> prob = min (0.3 + (real (triggeredCount f) / 9) * 0.7) 1.0
     \<and> fake = (prob \<ge> 0.7)
     \<and> map imp red_flag_names
         = map (\<lambda>b. Some (if b then 0.1 else 0.0)) (documented_red_flags f)
     \<and> dom imp = set red_flag_names
     \<and> (triggeredCount f = 0 \<longrightarrow> prob = 0.3 \<and> \<not> fake)
     \<and> (triggeredCount f = 9 \<longrightarrow> prob = 1.0 \<and> fake)"
    by (simp add: length_documented_red_flags)
qed

theorem heuristic_detection_formula_witness:
  "(\<exists>imp. heuristic_detection Map.empty = Inr (0.3, False, imp))
   \<and> triggeredCount Map.empty = 0
   \<and> (\<exists>imp. heuristic_detection all_flags_features = Inr (1, True, imp))
   \<and> triggeredCount all_flags_features = 9"
proof -
  have t0: "triggeredCount Map.empty = 0"
    by (simp add: triggeredCount_def documented_red_flags_def num_or_def)
  have t9: "triggeredCount all_flags_features = 9"
    by (simp add: triggeredCount_def documented_red_flags_def num_or_def all_flags_features_def)
  obtain p0 f0 i0 where h0: "heuristic_detection Map.empty = Inr (p0, f0, i0)"
    by (simp add: heuristic_detection_def red_flags_total numeric_entry_def Let_def)
  obtain p9 f9 i9 where h9: "heuristic_detection all_flags_features = Inr (p9, f9, i9)"
    by (simp add: heuristic_detection_def red_flags_total numeric_entry_def Let_def
        all_flags_features_def)
  from heuristic_detection_formula [of Map.empty p0 f0 i0] h0 t0
  have "p0 = 0.3 \<and> \<not> f0" by simp
  moreover from heuristic_detection_formula [of all_flags_features p9 f9 i9] h9 t9
  have "p9 = 1 \<and> f9" by simp
  ultimately show ?thesis using h0 h9 t0 t9 by auto
qed

section \<open>The analysis pipeline\<close>

lemma numeric_entry_simps [simp]:
  "numeric_entry None" "numeric_entry (Some (Num x))" "numeric_entry (Some (Flag b))"
  "\<not> numeric_entry (Some (Str s))" "\<not> numeric_entry (Some NoneVal)"
  by (simp_all add: numeric_entry_def)

lemma numeric_map_add:
  "numeric_entry (a k) \<Longrightarrow> numeric_entry (b k) \<Longrightarrow> numeric_entry ((a ++ b) k)"
  by (cases "b k") (simp_all add: map_add_def)

lemma numeric_account_metrics: "numeric_entry (extract_account_metrics lib now p k)"
  by (simp add: extract_account_metrics_def Let_def opt_entry_def split: option.splits)

lemma numeric_content_features: "numeric_entry (extract_content_features p k)"
  by (simp add: extract_content_features_def Let_def bool_num_def)

lemma numeric_profile_features: "numeric_entry (extract_profile_features p k)"
  by (simp add: extract_profile_features_def Let_def bool_num_def)

lemma numeric_platform_features:
  "k \<noteq> ''page_likes_count'' \<Longrightarrow> numeric_entry (extract_platform_features p k)"
  by (simp add: extract_platform_features_def extract_twitter_features_def
      extract_instagram_features_def extract_facebook_features_def Let_def bool_num_def)

lemma numeric_extract_features:
  assumes "extract_features lib now p = Inr f" and "k \<noteq> ''page_likes_count''"
  shows "numeric_entry (f k)"
  unfolding extract_features_Inr(2) [OF assms(1)]
  by (intro numeric_map_add numeric_account_metrics numeric_content_features
      numeric_profile_features numeric_platform_features assms(2)) simp

lemma numeric_content_analyze: "numeric_entry (content_analyze lib p k)"
  by (simp add: content_analyze_def content_defaults_def Let_def)

lemma numeric_network_analyze: "numeric_entry (network_analyze p k)"
  by (simp add: network_analyze_def Let_def)

lemma numeric_image_analyze:
  "k \<noteq> ''image_hash'' \<Longrightarrow> numeric_entry (image_analyze lib p k)"
  by (simp add: image_analyze_def Let_def split: option.splits prod.splits)

lemma activity_analyze_Inr:
  assumes "activity_analyze lib now p = Inr m"
  shows "numeric_entry (m k)"
  using assms
  by (auto simp: activity_analyze_def activity_defaults_def Let_def bind_err_eq_Inr
      split: if_splits)

lemma activity_analyze_total:
  assumes "collect_timestamps lib (pd_posts p) = []"
  shows "\<exists>m. activity_analyze lib now p = Inr m"
  using assms by (simp add: activity_analyze_def Let_def)

lemma combined_features_Inr:
  assumes "combined_features lib clk p = Inr cf"
  obtains fe act where "extract_features lib (now_features clk) p = Inr fe"
    and "activity_analyze lib (now_activity clk) p = Inr act"
    and "cf = fe ++ content_analyze lib p ++ act ++ image_analyze lib p ++ network_analyze p"
  using assms by (auto simp: combined_features_def bind_err_eq_Inr Let_def)

lemma combined_features_total:
  assumes "collect_timestamps lib (pd_posts p) = []"
  shows "\<exists>cf. combined_features lib clk p = Inr cf"
proof -
  from extract_features_total_without_timestamps [OF assms]
  obtain fe where "extract_features lib (now_features clk) p = Inr fe" by blast
  moreover from activity_analyze_total [OF assms]
  obtain act where "activity_analyze lib (now_activity clk) p = Inr act" by blast
  ultimately show ?thesis by (simp add: combined_features_def Let_def)
qed

lemma numeric_combined_features:
  assumes "combined_features lib clk p = Inr cf"
    and "k \<noteq> ''page_likes_count''" and "k \<noteq> ''image_hash''"
  shows "numeric_entry (cf k)"
proof -
  from assms(1) obtain fe act where fe: "extract_features lib (now_features clk) p = Inr fe"
    and act: "activity_analyze lib (now_activity clk) p = Inr act"
    and cf: "cf = fe ++ content_analyze lib p ++ act ++ image_analyze lib p ++ network_analyze p"
    by (rule combined_features_Inr)
  show ?thesis
    unfolding cf
    by (intro numeric_map_add numeric_extract_features [OF fe] numeric_content_analyze
        activity_analyze_Inr [OF act] numeric_image_analyze numeric_network_analyze assms)
qed

lemma num_gets_total:
  "\<forall>(k, d) \<in> set kds. numeric_entry (f k) \<Longrightarrow> \<exists>xs. num_gets f kds = Inr xs"
  by (induction kds) (auto simp: num_get_numeric)

lemma feature_names_plain:
  "k \<in> set feature_names \<Longrightarrow> k \<noteq> ''page_likes_count'' \<and> k \<noteq> ''image_hash''"
  by (auto simp: feature_names_def)

lemma prepare_feature_vector_total:
  assumes "combined_features lib clk p = Inr cf"
  shows "\<exists>v. prepare_feature_vector cf = Inr v"
  unfolding prepare_feature_vector_def
  by (rule num_gets_total) (auto dest!: feature_names_plain intro: numeric_combined_features [OF assms])

lemma heuristic_detection_total:
  assumes "combined_features lib clk p = Inr cf"
  shows "\<exists>r. heuristic_detection cf = Inr r"
proof -
  have "red_flags cf = Inr (zip red_flag_names (documented_red_flags cf))"
    by (rule red_flags_total) (auto intro!: numeric_combined_features [OF assms])
  then show ?thesis by (simp add: heuristic_detection_def Let_def)
qed

lemma identify_suspicious_indicators_total:
  assumes "combined_features lib clk p = Inr cf"
  shows "\<exists>inds. identify_suspicious_indicators cf = Inr inds"
proof -
  have n: "numeric_entry (cf k)" if "k \<noteq> ''page_likes_count''" "k \<noteq> ''image_hash''" for k
    using assms that by (rule numeric_combined_features)
  show ?thesis
    by (simp add: identify_suspicious_indicators_def num_get_numeric n)
qed

lemma decide_total:
  assumes "combined_features lib clk p = Inr cf"
  shows "\<exists>r. decide model cf = Inr r"
proof (cases model)
  case None
  with heuristic_detection_total [OF assms] show ?thesis by (simp add: decide_def)
next
  case (Some m)
  from prepare_feature_vector_total [OF assms] obtain v where "prepare_feature_vector cf = Inr v"
    by blast
  with Some show ?thesis by (simp add: decide_def Let_def)
qed

lemma analyze_profile_total:
  assumes "collect_timestamps lib (pd_posts p) = []"
  shows "\<exists>r. analyze_profile lib clk model p = Inr r"
proof -
  from combined_features_total [OF assms] obtain cf where cf: "combined_features lib clk p = Inr cf"
    by blast
  from decide_total [OF cf] obtain prob fake imp where "decide model cf = Inr (prob, fake, imp)"
    by (metis prod_cases3)
  moreover from identify_suspicious_indicators_total [OF cf] obtain inds
    where "identify_suspicious_indicators cf = Inr inds" by blast
  ultimately show ?thesis
    using cf by (simp add: analyze_profile_def)
qed

lemma analyze_profile_Inr:
  assumes "analyze_profile lib clk model p = Inr r"
  obtains cf inds where "combined_features lib clk p = Inr cf"
    and "decide model cf = Inr (probability r, is_fake r, feature_importance r)"
    and "identify_suspicious_indicators cf = Inr inds"
    and "r = \<lparr>is_fake = is_fake r, probability = probability r, indicators = inds,
              feature_importance = feature_importance r,
              recommendations = generate_recommendations (is_fake r) (probability r) inds,
              res_profile_data = p, res_timestamp = now_result clk\<rparr>"
  using assms by (auto simp: analyze_profile_def bind_err_eq_Inr)

lemma decide_threshold:
  assumes "decide model cf = Inr (prob, fake, imp)"
  shows "fake = (0.7 \<le> prob)"
proof (cases model)
  case None
  with assms have "heuristic_detection cf = Inr (prob, fake, imp)" by (simp add: decide_def)
  then show ?thesis by (rule heuristic_detection_Inr)
next
  case (Some m)
  with assms show ?thesis
    by (auto simp: decide_def bind_err_eq_Inr Let_def)
qed

text \<open>
  C1. In both decision paths, with a trained classifier and with the heuristic fallback,
  every result the analysis returns has its \<open>is_fake\<close> flag set exactly when its
  probability is at least 0.7.
\<close>

theorem is_fake_iff_threshold:
  "(analyze_profile lib clk (Some m) p = Inr r \<longrightarrow> is_fake r = (0.7 \<le> probability r))
   \<and> (analyze_profile lib clk None p = Inr r' \<longrightarrow> is_fake r' = (0.7 \<le> probability r'))"
proof (intro conjI impI)
  assume "analyze_profile lib clk (Some m) p = Inr r"
  then obtain cf where "decide (Some m) cf = Inr (probability r, is_fake r, feature_importance r)"
    by (rule analyze_profile_Inr)
  then show "is_fake r = (0.7 \<le> probability r)" by (rule decide_threshold)
next
  assume "analyze_profile lib clk None p = Inr r'"
  then obtain cf where "decide None cf = Inr (probability r', is_fake r', feature_importance r')"
    by (rule analyze_profile_Inr)
  then show "is_fake r' = (0.7 \<le> probability r')" by (rule decide_threshold)
qed

theorem is_fake_iff_threshold_witness:
  "\<exists>r r'. analyze_profile sample_lib sample_clock (Some sample_model) empty_profile = Inr r
      \<and> is_fake r = (0.7 \<le> probability r)
      \<and> analyze_profile sample_lib sample_clock None empty_profile = Inr r'
      \<and> is_fake r' = (0.7 \<le> probability r')"
proof -
  have nt: "collect_timestamps sample_lib (pd_posts empty_profile) = []"
    by (rule no_posts_no_timestamps) (simp add: empty_profile_def)
  from analyze_profile_total [OF nt] obtain r
    where r: "analyze_profile sample_lib sample_clock (Some sample_model) empty_profile = Inr r"
    by blast
  from analyze_profile_total [OF nt] obtain r'
    where r': "analyze_profile sample_lib sample_clock None empty_profile = Inr r'"
    by blast
  from is_fake_iff_threshold [of sample_lib sample_clock sample_model empty_profile r r'] r r'
  show ?thesis by blast
qed

section \<open>Dependence on the clock\<close>

lemma network_analyze_dom:
  "dom (network_analyze p) =
     {''network_analysis_performed'', ''followers_count'', ''following_count'',
      ''followers_to_following_ratio'', ''network_isolation_score'', ''mutual_connection_ratio'',
      ''clustering_coefficient'', ''reciprocity'', ''network_score''}"
  by (auto simp: network_analyze_def Let_def dom_map_of_conv_image_fst)

lemma image_analyze_dom:
  "dom (image_analyze lib p) \<subseteq>
     {''image_analysis_performed'', ''profile_pic_score'', ''is_default_image'',
      ''is_stock_photo'', ''is_ai_generated'', ''image_quality_score'', ''image_hash''}"
  by (auto simp: image_analyze_def Let_def dom_map_of_conv_image_fst
      split: option.splits prod.splits if_splits)

lemma content_analyze_dom:
  "dom (content_analyze lib p) \<subseteq>
     {''content_analysis_performed'', ''sentiment_score'', ''content_diversity'',
      ''suspicious_content_score'', ''spam_pattern_matches'', ''suspicious_keywords_count'',
      ''keyword_ratio''}"
  by (auto simp: content_analyze_def content_defaults_def Let_def dom_map_of_conv_image_fst
      split: if_splits)

lemma activity_analyze_dom:
  assumes "activity_analyze lib now p = Inr m"
  shows "dom m \<subseteq>
     {''activity_analysis_performed'', ''account_age_days'', ''posts_per_day'',
      ''posting_regularity'', ''time_zone_consistency'', ''engagement_rate'',
      ''posting_bursts'', ''activity_score''}"
  using assms
  by (auto simp: activity_analyze_def activity_defaults_def Let_def bind_err_eq_Inr
      dom_map_of_conv_image_fst split: if_splits)

lemma map_add_absent: "k \<notin> dom b \<Longrightarrow> (a ++ b) k = a k"
  by (simp add: map_add_dom_app_simps)

lemma map_add_present: "k \<in> dom b \<Longrightarrow> (a ++ b) k = b k"
  by (simp add: map_add_dom_app_simps)

lemma combined_network_key:
  assumes "combined_features lib clk p = Inr cf" and "k \<in> dom (network_analyze p)"
  shows "cf k = network_analyze p k"
proof -
  from assms(1) obtain fe act where
    "cf = fe ++ content_analyze lib p ++ act ++ image_analyze lib p ++ network_analyze p"
    by (rule combined_features_Inr)
  with assms(2) show ?thesis by (simp add: map_add_present)
qed

lemma combined_image_key:
  assumes "combined_features lib clk p = Inr cf"
    and "k \<notin> dom (network_analyze p)" and "k \<in> dom (image_analyze lib p)"
  shows "cf k = image_analyze lib p k"
proof -
  from assms(1) obtain fe act where
    "cf = fe ++ content_analyze lib p ++ act ++ image_analyze lib p ++ network_analyze p"
    by (rule combined_features_Inr)
  with assms(2,3) show ?thesis by (simp add: map_add_present map_add_absent)
qed

lemma combined_activity_key:
  assumes "combined_features lib clk p = Inr cf"
    and "k \<in> {''account_age_days'', ''posts_per_day'', ''posting_regularity'',
               ''time_zone_consistency'', ''engagement_rate'', ''posting_bursts'',
               ''activity_score''}"
  shows "\<exists>fe act. extract_features lib (now_features clk) p = Inr fe
           \<and> activity_analyze lib (now_activity clk) p = Inr act
           \<and> cf k = (case act k of Some v \<Rightarrow> Some v
                       | None \<Rightarrow> (fe ++ content_analyze lib p) k)"
proof -
  from assms(1) obtain fe act where fe: "extract_features lib (now_features clk) p = Inr fe"
    and act: "activity_analyze lib (now_activity clk) p = Inr act"
    and cf: "cf = fe ++ content_analyze lib p ++ act ++ image_analyze lib p ++ network_analyze p"
    by (rule combined_features_Inr)
  have "k \<notin> dom (network_analyze p)"
    using assms(2) unfolding network_analyze_dom by auto
  moreover have "k \<notin> dom (image_analyze lib p)"
    using assms(2) image_analyze_dom [of lib p] by auto
  ultimately have "cf k = (fe ++ content_analyze lib p ++ act) k"
    unfolding cf by (simp add: map_add_absent)
  then have "cf k = (case act k of Some v \<Rightarrow> Some v | None \<Rightarrow> (fe ++ content_analyze lib p) k)"
    by (simp add: map_add_def [of _ act])
  with fe act show ?thesis by blast
qed

lemma combined_content_key:
  assumes "combined_features lib clk p = Inr cf"
    and "k \<in> {''sentiment_score'', ''content_diversity'', ''suspicious_content_score''}"
  shows "cf k = content_analyze lib p k" and "content_analyze lib p k \<noteq> None"
proof -
  from assms(1) obtain fe act where fe: "extract_features lib (now_features clk) p = Inr fe"
    and act: "activity_analyze lib (now_activity clk) p = Inr act"
    and cf: "cf = fe ++ content_analyze lib p ++ act ++ image_analyze lib p ++ network_analyze p"
    by (rule combined_features_Inr)
  have "k \<notin> dom (network_analyze p)"
    using assms(2) unfolding network_analyze_dom by auto
  moreover have "k \<notin> dom (image_analyze lib p)"
    using assms(2) image_analyze_dom [of lib p] by auto
  moreover have "k \<notin> dom act"
    using assms(2) activity_analyze_dom [OF act] by auto
  moreover show present: "content_analyze lib p k \<noteq> None"
    using assms(2) by (auto simp: content_analyze_def content_defaults_def Let_def)
  ultimately show "cf k = content_analyze lib p k"
    unfolding cf by (simp add: map_add_absent map_add_present domIff)
qed

lemma combined_bio_length:
  assumes "combined_features lib clk p = Inr cf"
  shows "cf ''bio_length'' = Some (Num (real (case pd_bio p of None \<Rightarrow> 0 | Some b \<Rightarrow> length b)))"
proof -
  from assms(1) obtain fe act where fe: "extract_features lib (now_features clk) p = Inr fe"
    and act: "activity_analyze lib (now_activity clk) p = Inr act"
    and cf: "cf = fe ++ content_analyze lib p ++ act ++ image_analyze lib p ++ network_analyze p"
    by (rule combined_features_Inr)
  have "''bio_length'' \<notin> dom (network_analyze p)"
    unfolding network_analyze_dom by simp
  moreover have "''bio_length'' \<notin> dom (image_analyze lib p)"
    using image_analyze_dom [of lib p] by auto
  moreover have "''bio_length'' \<notin> dom act"
    using activity_analyze_dom [OF act] by auto
  moreover have "''bio_length'' \<notin> dom (content_analyze lib p)"
    using content_analyze_dom [of lib p] by auto
  ultimately have "cf ''bio_length'' = fe ''bio_length''"
    unfolding cf by (simp add: map_add_absent)
  also have "''bio_length'' \<notin> dom (extract_profile_features p)"
    unfolding profile_features_dom by simp
  moreover have "''bio_length'' \<notin> dom (extract_platform_features p)"
    using platform_features_dom [of p] by auto
  ultimately have "cf ''bio_length'' = extract_content_features p ''bio_length''"
    unfolding extract_features_Inr(2) [OF fe]
    by (simp add: map_add_absent map_add_present content_features_dom)
  then show ?thesis
    by (simp add: extract_content_features_def Let_def)
qed


lemma dated_profile_features:
  assumes "combined_features sample_lib (clock_at t) dated_profile = Inr cf"
  shows "documented_red_flags cf =
           [days_between t (738885 * usec_per_day) < 30, False, False, False, True, False, False,
            False, True]"
proof -
  have posts: "pd_posts dated_profile = []"
    by (simp add: dated_profile_def empty_profile_def)
  from assms obtain fe act where fe: "extract_features sample_lib (now_features (clock_at t)) dated_profile = Inr fe"
    and act: "activity_analyze sample_lib (now_activity (clock_at t)) dated_profile = Inr act"
    and cf: "cf = fe ++ content_analyze sample_lib dated_profile ++ act
                  ++ image_analyze sample_lib dated_profile ++ network_analyze dated_profile"
    by (rule combined_features_Inr)
  have act_eq: "act = activity_defaults"
    using act posts by (simp add: activity_analyze_def)
  have content_eq: "content_analyze sample_lib dated_profile = content_defaults"
    using posts by (simp add: content_analyze_def)
  have age_fe: "fe ''account_age_days'' = Some (Num (real_of_int (days_between t (738885 * usec_per_day))))"
    unfolding extract_features_account_age [OF fe]
    by (simp add: account_age_entry dated_profile_def empty_profile_def parsed_account_age_def
        creation_date_formats_def sample_lib_def clock_at_def)
  from combined_activity_key [OF assms, of "''account_age_days''"] fe act
  have "cf ''account_age_days'' = (case act ''account_age_days'' of Some v \<Rightarrow> Some v
          | None \<Rightarrow> (fe ++ content_analyze sample_lib dated_profile) ''account_age_days'')"
    by simp
  then have age: "cf ''account_age_days'' = Some (Num (real_of_int (days_between t (738885 * usec_per_day))))"
    by (simp add: act_eq activity_defaults_def content_eq content_defaults_def age_fe map_add_def)
  from combined_activity_key [OF assms, of "''posts_per_day''"] fe act
  have ppd: "cf ''posts_per_day'' = Some (Num 0)"
    by (simp add: act_eq activity_defaults_def)
  from combined_activity_key [OF assms, of "''engagement_rate''"] fe act
  have eng: "cf ''engagement_rate'' = Some (Num 0)"
    by (simp add: act_eq activity_defaults_def)
  have ratio: "cf ''followers_to_following_ratio'' = Some (Num 1)"
    by (subst combined_network_key [OF assms])
       (simp_all add: network_analyze_dom, simp add: network_analyze_def dated_profile_def
          empty_profile_def calculate_ratio_def Let_def)
  have iso: "cf ''network_isolation_score'' = Some (Num 0.5)"
    by (subst combined_network_key [OF assms])
       (simp_all add: network_analyze_dom, simp add: network_analyze_def dated_profile_def
          empty_profile_def estimate_isolation_from_counts_def Let_def)
  have img: "image_analyze sample_lib dated_profile ''profile_pic_score'' = Some (Num 0.5)"
    by (simp add: image_analyze_def dated_profile_def empty_profile_def)
  have pic: "cf ''profile_pic_score'' = Some (Num 0.5)"
    by (subst combined_image_key [OF assms]) (simp_all add: network_analyze_dom img domIff)
  have susp: "cf ''suspicious_content_score'' = Some (Num 0)"
    by (subst combined_content_key(1) [OF assms]) (simp_all add: content_eq content_defaults_def)
  have div: "cf ''content_diversity'' = Some (Num 1)"
    by (subst combined_content_key(1) [OF assms]) (simp_all add: content_eq content_defaults_def)
  have bio: "cf ''bio_length'' = Some (Num 0)"
    by (simp add: combined_bio_length [OF assms] dated_profile_def empty_profile_def)
  show ?thesis
    by (simp add: documented_red_flags_def age ppd eng ratio iso pic susp div bio num_or_def)
qed

lemma dated_profile_probability:
  "map_sum id probability (analyze_profile sample_lib (clock_at t) None dated_profile)
     = Inr (if days_between t (738885 * usec_per_day) < 30 then 8 / 15 else 41 / 90)"
proof -
  have nt: "collect_timestamps sample_lib (pd_posts dated_profile) = []"
    by (rule no_posts_no_timestamps) (simp add: dated_profile_def empty_profile_def)
  from analyze_profile_total [OF nt] obtain r
    where r: "analyze_profile sample_lib (clock_at t) None dated_profile = Inr r" by blast
  then obtain cf where cf: "combined_features sample_lib (clock_at t) dated_profile = Inr cf"
    and d: "decide None cf = Inr (probability r, is_fake r, feature_importance r)"
    by (rule analyze_profile_Inr)
  from d have "heuristic_detection cf = Inr (probability r, is_fake r, feature_importance r)"
    by (simp add: decide_def)
  then have "probability r = min (0.3 + (real (triggeredCount cf) / 9) * 0.7) 1"
    by (rule heuristic_detection_Inr)
  moreover have "triggeredCount cf = (if days_between t (738885 * usec_per_day) < 30 then 3 else 2)"
    by (simp add: triggeredCount_def dated_profile_features [OF cf])
  ultimately have "probability r = (if days_between t (738885 * usec_per_day) < 30 then 8 / 15 else 41 / 90)"
    by simp
  with r show ?thesis by simp
qed

text \<open>
  The same profile, analysed with the same (absent) classifier ten days and a hundred days
  after its creation date, gets two different results: the probability is 8/15 at the first
  reading of the clock and 41/90 at the second, because the new-account flag depends on the
  account age.
\<close>

theorem analysis_depends_on_clock:
  "analyze_profile sample_lib (clock_at ten_days_after) None dated_profile
     \<noteq> analyze_profile sample_lib (clock_at hundred_days_after) None dated_profile
   \<and> map_sum id probability
         (analyze_profile sample_lib (clock_at ten_days_after) None dated_profile) = Inr (8 / 15)
   \<and> map_sum id probability
         (analyze_profile sample_lib (clock_at hundred_days_after) None dated_profile) = Inr (41 / 90)"
proof -
  have a: "map_sum id probability
         (analyze_profile sample_lib (clock_at ten_days_after) None dated_profile) = Inr (8 / 15)"
    by (simp add: dated_profile_probability ten_days_after_def days_between_def usec_per_day_def
        usec_per_second_def)
  have b: "map_sum id probability
         (analyze_profile sample_lib (clock_at hundred_days_after) None dated_profile) = Inr (41 / 90)"
    by (simp add: dated_profile_probability hundred_days_after_def days_between_def
        usec_per_day_def usec_per_second_def)
  have "analyze_profile sample_lib (clock_at ten_days_after) None dated_profile
     \<noteq> analyze_profile sample_lib (clock_at hundred_days_after) None dated_profile"
  proof
    assume "analyze_profile sample_lib (clock_at ten_days_after) None dated_profile
     = analyze_profile sample_lib (clock_at hundred_days_after) None dated_profile"
    with a b have "(Inr (8 / 15) :: error + real) = Inr (41 / 90)" by simp
    then show False by simp
  qed
  with a b show ?thesis by blast
qed

lemma account_metrics_same_age:
  assumes "\<forall>s. pd_creation_date p = Some s \<longrightarrow>
             parsed_account_age lib n1 s = parsed_account_age lib n2 s"
  shows "extract_account_metrics lib n1 p = extract_account_metrics lib n2 p"
  using assms by (cases "pd_creation_date p") (simp_all add: extract_account_metrics_def Let_def)

lemma activity_analyze_same_age:
  assumes "\<forall>s. pd_creation_date p = Some s \<longrightarrow>
             parsed_account_age lib n1 s = parsed_account_age lib n2 s"
  shows "activity_analyze lib n1 p = activity_analyze lib n2 p"
  using assms by (cases "pd_creation_date p") (simp_all add: activity_analyze_def Let_def)

lemma combined_features_same_age:
  assumes "\<forall>s. pd_creation_date p = Some s \<longrightarrow>
             parsed_account_age lib (now_features c1) s = parsed_account_age lib (now_features c2) s
           \<and> parsed_account_age lib (now_activity c1) s = parsed_account_age lib (now_activity c2) s"
  shows "combined_features lib c1 p = combined_features lib c2 p"
proof -
  have "extract_account_metrics lib (now_features c1) p = extract_account_metrics lib (now_features c2) p"
    using assms by (intro account_metrics_same_age) simp
  then have "extract_features lib (now_features c1) p = extract_features lib (now_features c2) p"
    by (simp add: extract_features_def)
  moreover have "activity_analyze lib (now_activity c1) p = activity_analyze lib (now_activity c2) p"
    using assms by (intro activity_analyze_same_age) simp
  ultimately show ?thesis by (simp add: combined_features_def)
qed

text \<open>
  C7 (amended). The analysis is a function of the profile, the classifier state and the
  readings of the clock. Two analyses of the same profile with the same classifier state
  agree on every field except the timestamp whenever the creation date gives the same
  account age in days at the clock readings of both runs (as it does when the creation date
  is absent, empty or unparsable); the timestamp of a result is the clock reading of its
  run.
\<close>

theorem analysis_determined_up_to_timestamp:
  assumes "\<forall>s. pd_creation_date p = Some s \<longrightarrow>
             parsed_account_age lib (now_features c1) s = parsed_account_age lib (now_features c2) s
           \<and> parsed_account_age lib (now_activity c1) s = parsed_account_age lib (now_activity c2) s"
  shows "map_sum id (\<lambda>r. r\<lparr>res_timestamp := t\<rparr>) (analyze_profile lib c1 model p)
         = map_sum id (\<lambda>r. r\<lparr>res_timestamp := t\<rparr>) (analyze_profile lib c2 model p)
       \<and> (\<forall>r. analyze_profile lib c1 model p = Inr r \<longrightarrow> res_timestamp r = now_result c1)"
proof
  have cf: "combined_features lib c1 p = combined_features lib c2 p"
    using assms by (rule combined_features_same_age)
  show "map_sum id (\<lambda>r. r\<lparr>res_timestamp := t\<rparr>) (analyze_profile lib c1 model p)
         = map_sum id (\<lambda>r. r\<lparr>res_timestamp := t\<rparr>) (analyze_profile lib c2 model p)"
    unfolding analyze_profile_def cf
    by (auto simp: bind_err_def split: sum.splits)
  show "\<forall>r. analyze_profile lib c1 model p = Inr r \<longrightarrow> res_timestamp r = now_result c1"
    by (auto simp: analyze_profile_def bind_err_eq_Inr)
qed

theorem analysis_determined_up_to_timestamp_witness:
  "parsed_account_age sample_lib ten_days_after ''2024-01-01''
     = parsed_account_age sample_lib ten_days_and_an_hour_after ''2024-01-01''
   \<and> map_sum id (\<lambda>r. r\<lparr>res_timestamp := 0\<rparr>)
        (analyze_profile sample_lib (clock_at ten_days_after) None dated_profile)
     = map_sum id (\<lambda>r. r\<lparr>res_timestamp := 0\<rparr>)
        (analyze_profile sample_lib (clock_at ten_days_and_an_hour_after) None dated_profile)
   \<and> map_sum id res_timestamp
        (analyze_profile sample_lib (clock_at ten_days_after) None dated_profile)
     = Inr ten_days_after"
proof -
  have age: "parsed_account_age sample_lib ten_days_after ''2024-01-01''
     = parsed_account_age sample_lib ten_days_and_an_hour_after ''2024-01-01''"
    by (simp add: parsed_account_age_def creation_date_formats_def sample_lib_def
        ten_days_after_def ten_days_and_an_hour_after_def days_between_def usec_per_day_def
        usec_per_second_def)
  have hyp: "\<forall>s. pd_creation_date dated_profile = Some s \<longrightarrow>
      parsed_account_age sample_lib (now_features (clock_at ten_days_after)) s
        = parsed_account_age sample_lib (now_features (clock_at ten_days_and_an_hour_after)) s
      \<and> parsed_account_age sample_lib (now_activity (clock_at ten_days_after)) s
        = parsed_account_age sample_lib (now_activity (clock_at ten_days_and_an_hour_after)) s"
    using age by (simp add: dated_profile_def empty_profile_def clock_at_def)
  have nt: "collect_timestamps sample_lib (pd_posts dated_profile) = []"
    by (rule no_posts_no_timestamps) (simp add: dated_profile_def empty_profile_def)
  from analyze_profile_total [OF nt] obtain r
    where r: "analyze_profile sample_lib (clock_at ten_days_after) None dated_profile = Inr r"
    by blast
  from analysis_determined_up_to_timestamp [OF hyp, of 0 None] r age
  show ?thesis by (simp add: clock_at_def)
qed

section \<open>Score ranges\<close>

lemma unit_score_Num [simp]: "unit_score (Some (Num x)) = (0 \<le> x \<and> x \<le> 1)"
  by (simp add: unit_score_def)

lemma content_diversity_bounds:
  "0 \<le> calculate_content_diversity texts \<and> calculate_content_diversity texts \<le> 1"
proof -
  have main: "0 \<le> real (length (remdups ts)) / real (length ts) * (1 - 0.5 * (1 / (1 + real n)))
        \<and> real (length (remdups ts)) / real (length ts) * (1 - 0.5 * (1 / (1 + real n))) \<le> 1"
    if "ts \<noteq> []" for ts :: "string list" and n :: nat
  proof -
    let ?ttr = "real (length (remdups ts)) / real (length ts)"
    let ?adj = "1 - 0.5 * (1 / (1 + real n))"
    have "length (remdups ts) \<le> length ts" by (rule length_remdups_leq)
    then have ttr: "0 \<le> ?ttr \<and> ?ttr \<le> 1"
      using that by (simp add: divide_le_eq_1)
    have adj: "0 \<le> ?adj \<and> ?adj \<le> 1"
      by (simp add: field_simps)
    from ttr adj have "0 \<le> ?ttr * ?adj" by (intro mult_nonneg_nonneg) simp_all
    moreover from ttr adj have "?ttr * ?adj \<le> 1" by (intro mult_le_one) simp_all
    ultimately show ?thesis by simp
  qed
  show ?thesis
    using main by (simp add: calculate_content_diversity_def Let_def del: of_nat_Suc)
qed

lemma content_weights_bounds:
  fixes sf df spf kf :: real
  assumes "0 \<le> sf" "sf \<le> 1" "0 \<le> df" "df \<le> 1" "0 \<le> spf" "spf \<le> 1" "0 \<le> kf" "kf \<le> 1"
  shows "0 \<le> 0.1 * sf + 0.35 * df + 0.35 * spf + 0.2 * kf
       \<and> 0.1 * sf + 0.35 * df + 0.35 * spf + 0.2 * kf \<le> 1"
  using assms by (simp add: field_simps)

lemma suspicious_score_bounds:
  assumes "0 \<le> s" "s \<le> 1" "0 \<le> d" "d \<le> 1" "0 \<le> kr"
  shows "0 \<le> calculate_suspicious_score s d spam kr n
       \<and> calculate_suspicious_score s d spam kr n \<le> 1"
proof -
  define sf where "sf = 2 * \<bar>s - 0.5\<bar>"
  define spf where "spf = (if n > 0 then min 1.0 (real spam / real n) else 0)"
  define kf where "kf = min 1.0 (kr * 10)"
  have "\<bar>s - 1 / 2\<bar> \<le> 1 / 2" using assms(1,2) by linarith
  then have sf: "0 \<le> sf" "sf \<le> 1" unfolding sf_def by simp_all
  have spf: "0 \<le> spf" "spf \<le> 1" unfolding spf_def by simp_all
  have kf: "0 \<le> kf" "kf \<le> 1" using assms(5) unfolding kf_def by simp_all
  have df: "0 \<le> 1 - d" "1 - d \<le> 1" using assms(3,4) by simp_all
  have "calculate_suspicious_score s d spam kr n = 0.1 * sf + 0.35 * (1 - d) + 0.35 * spf + 0.2 * kf"
    unfolding calculate_suspicious_score_def Let_def sf_def spf_def kf_def ..
  with content_weights_bounds [OF sf df spf kf] show ?thesis by (simp only:)
qed

lemma content_defaults_scores:
  "k \<in> set content_score_keys \<Longrightarrow> unit_score (content_defaults k)"
  by (auto simp: content_score_keys_def content_defaults_def)

lemma content_analyze_scores:
  assumes "k \<in> set content_score_keys"
  shows "unit_score (content_analyze lib p k)"
proof -
  define ts where "ts = filter strip_nonempty (map post_text_content (pd_posts p))"
  show ?thesis
  proof (cases "pd_posts p = [] \<or> ts = []")
    case True
    then have "content_analyze lib p = content_defaults"
      by (auto simp: content_analyze_def ts_def Let_def)
    with assms show ?thesis by (simp add: content_defaults_scores)
  next
    case False
    define kr where "kr = (if sum_list (map (\<lambda>txt. length (tokenize txt)) ts) > 0
         then real (count_suspicious_keywords ts)
              / real (sum_list (map (\<lambda>txt. length (tokenize txt)) ts)) else 0)"
    define susp where "susp = calculate_suspicious_score (analyze_sentiment ts)
         (calculate_content_diversity ts) (detect_spam_patterns lib ts) kr (length ts)"
    have "0 \<le> kr" unfolding kr_def by simp
    then have susp: "0 \<le> susp \<and> susp \<le> 1"
      unfolding susp_def
      using analyze_sentiment_bounds [of ts] content_diversity_bounds [of ts]
      by (intro suspicious_score_bounds) simp_all
    have "content_analyze lib p = map_of
               [(''content_analysis_performed'', Flag True),
                (''sentiment_score'', Num (analyze_sentiment ts)),
                (''content_diversity'', Num (calculate_content_diversity ts)),
                (''suspicious_content_score'', Num susp),
                (''spam_pattern_matches'', Num (real (detect_spam_patterns lib ts))),
                (''suspicious_keywords_count'', Num (real (count_suspicious_keywords ts))),
                (''keyword_ratio'', Num kr)]"
      using False unfolding content_analyze_def Let_def ts_def [symmetric] kr_def susp_def
      by simp
    with assms susp analyze_sentiment_bounds [of ts] content_diversity_bounds [of ts]
    show ?thesis by (auto simp: content_score_keys_def)
  qed
qed

lemma inter_ratio_bounds:
  fixes A B :: "string set"
  assumes "finite B"
  shows "0 \<le> real (card (A \<inter> B)) / real (card B) \<and> real (card (A \<inter> B)) / real (card B) \<le> 1"
proof -
  have "card (A \<inter> B) \<le> card B"
    using assms by (intro card_mono) auto
  then show ?thesis
    by (cases "card B = 0") (simp_all add: divide_le_eq_1)
qed

lemma inter_ratio_bounds':
  fixes A B :: "string set"
  assumes "finite A"
  shows "0 \<le> real (card (A \<inter> B)) / real (card A) \<and> real (card (A \<inter> B)) / real (card A) \<le> 1"
  using inter_ratio_bounds [OF assms, of B] by (simp add: Int_commute)

lemma mutual_connections_bounds:
  "0 \<le> analyze_mutual_connections fs gs \<and> analyze_mutual_connections fs gs \<le> 1"
  using inter_ratio_bounds [of "set (extract_user_ids gs)" "set (extract_user_ids fs)"]
  by (simp add: analyze_mutual_connections_def Let_def)

lemma reciprocity_bounds:
  "0 \<le> calculate_reciprocity fs gs \<and> calculate_reciprocity fs gs \<le> 1"
  using inter_ratio_bounds [of "set (extract_user_ids gs)" "set (extract_user_ids fs)"]
  by (simp add: calculate_reciprocity_def Let_def)

lemma network_isolation_bounds:
  "0 \<le> calculate_network_isolation fs gs ias fc gc
   \<and> calculate_network_isolation fs gs ias fc gc \<le> 1"
proof -
  let ?F = "set (extract_user_ids fs)" and ?G = "set (extract_user_ids gs)"
  let ?I = "set (extract_user_ids ias)"
  define fir where "fir = (if card ?F > 0 then real (card (?F \<inter> ?I)) / real (card ?F) else 0)"
  define mr where "mr = (if card ?G > 0 then real (card (?F \<inter> ?G)) / real (card ?G) else 0)"
  have "0 \<le> fir \<and> fir \<le> 1"
    unfolding fir_def using inter_ratio_bounds' [of ?F ?I] by simp
  moreover have "0 \<le> mr \<and> mr \<le> 1"
    unfolding mr_def using inter_ratio_bounds [of ?G ?F] by simp
  moreover have "calculate_network_isolation fs gs ias fc gc = 1 - (0.7 * mr + 0.3 * fir)"
    by (simp add: calculate_network_isolation_def fir_def mr_def Let_def)
  ultimately show ?thesis by (simp add: field_simps)
qed

lemma estimate_isolation_bounds:
  "0 \<le> estimate_isolation_from_counts fc gc \<and> estimate_isolation_from_counts fc gc \<le> 1"
  by (simp add: estimate_isolation_from_counts_def Let_def)

lemma clustering_bounds:
  "0 \<le> estimate_clustering fs gs ias \<and> estimate_clustering fs gs ias \<le> 1"
proof -
  let ?F = "set (extract_user_ids fs)" and ?G = "set (extract_user_ids gs)"
  let ?I = "set (extract_user_ids ias)"
  let ?ov = "card (?F \<inter> ?G) + card (?F \<inter> ?I) + card (?G \<inter> ?I)"
  let ?sz = "card ?F + card ?G + card ?I"
  have "card (?F \<inter> ?G) \<le> card ?F" by (intro card_mono) auto
  moreover have "card (?F \<inter> ?I) \<le> card ?I" by (intro card_mono) auto
  moreover have "card (?G \<inter> ?I) \<le> card ?G" by (intro card_mono) auto
  ultimately have le: "?ov \<le> ?sz" by linarith
  show ?thesis
  proof (cases "?sz = 0")
    case True
    then show ?thesis by (simp add: estimate_clustering_def Let_def)
  next
    case False
    define raw where "raw = real ?ov / real ?sz"
    from False have "0 < ?sz" by (simp only: neq0_conv)
    then have pos: "0 < real ?sz" by (simp only: of_nat_0_less_iff)
    from le have "real ?ov \<le> real ?sz" by (simp only: of_nat_le_iff)
    with pos have "0 \<le> raw \<and> raw \<le> 1"
      unfolding raw_def by (simp only: divide_le_eq_1_pos divide_nonneg_nonneg of_nat_0_le_iff)
    moreover have "estimate_clustering fs gs ias = 0.05 + raw * 0.75"
      unfolding estimate_clustering_def Let_def raw_def by (simp only: False if_False)
    ultimately show ?thesis by simp
  qed
qed

lemma network_terms_nonneg:
  fixes s1 isol mr cl rc :: real
  assumes "0 \<le> s1" "0 \<le> isol" "mr \<le> 1" "cl \<le> 1" "rc \<le> 1"
  shows "0 \<le> s1 + isol * 0.2 + (1 - mr) * 0.15 + (1 - cl) * 0.1 + (1 - rc) * 0.1"
  using assms by (intro add_nonneg_nonneg mult_nonneg_nonneg) simp_all

lemma network_score_bounds:
  assumes "0 \<le> isol" "mr \<le> 1" "cl \<le> 1" "rc \<le> 1"
  shows "0 \<le> calculate_network_score ratio isol mr cl rc fc gc
       \<and> calculate_network_score ratio isol mr cl rc fc gc \<le> 1"
proof -
  define s0 :: real where "s0 = (if fc < 10 then 0.3 else if fc < 50 then 0.2 else 0.0)"
  define s1 where "s1 = (if gc > 0
                then (let following_to_follower = real_of_int fc / real_of_int gc
                      in if following_to_follower < 0.1 then s0 + 0.25
                         else if following_to_follower < 0.3 then s0 + 0.15 else s0)
                else s0)"
  have "0 \<le> s0" unfolding s0_def by simp
  then have "0 \<le> s1" unfolding s1_def by (simp add: Let_def)
  from network_terms_nonneg [OF this assms]
  have nn: "0 \<le> s1 + isol * 0.2 + (1 - mr) * 0.15 + (1 - cl) * 0.1 + (1 - rc) * 0.1" .
  have "calculate_network_score ratio isol mr cl rc fc gc
      = min 1.0 (s1 + isol * 0.2 + (1 - mr) * 0.15 + (1 - cl) * 0.1 + (1 - rc) * 0.1)"
    unfolding calculate_network_score_def Let_def s0_def s1_def ..
  with nn show ?thesis by (simp only: min_def) simp
qed

lemma network_analyze_scores:
  assumes "k \<in> set network_score_keys"
  shows "unit_score (network_analyze p k)"
proof -
  define fc where "fc = (case pd_followers_count p of None \<Rightarrow> 0 | Some c \<Rightarrow> c)"
  define gc where "gc = (case pd_following_count p of None \<Rightarrow> 0 | Some c \<Rightarrow> c)"
  define isol where "isol = (if pd_followers p \<noteq> [] \<or> pd_following p \<noteq> [] \<or> pd_interactions p \<noteq> []
             then calculate_network_isolation (pd_followers p) (pd_following p) (pd_interactions p) fc gc
             else estimate_isolation_from_counts fc gc)"
  define mr where "mr = (if pd_followers p \<noteq> [] \<and> pd_following p \<noteq> []
             then analyze_mutual_connections (pd_followers p) (pd_following p) else 0.5)"
  define cl where "cl = (if pd_followers p \<noteq> [] \<and> pd_following p \<noteq> []
             then estimate_clustering (pd_followers p) (pd_following p) (pd_interactions p) else 0.5)"
  define rc where "rc = (if pd_followers p \<noteq> [] \<and> pd_following p \<noteq> []
             then calculate_reciprocity (pd_followers p) (pd_following p) else 0.5)"
  have isol: "0 \<le> isol \<and> isol \<le> 1"
    unfolding isol_def by (simp add: network_isolation_bounds estimate_isolation_bounds)
  have mr: "0 \<le> mr \<and> mr \<le> 1"
    unfolding mr_def by (simp add: mutual_connections_bounds)
  have cl: "0 \<le> cl \<and> cl \<le> 1"
    unfolding cl_def by (simp add: clustering_bounds)
  have rc: "0 \<le> rc \<and> rc \<le> 1"
    unfolding rc_def by (simp add: reciprocity_bounds)
  have ns: "0 \<le> calculate_network_score (calculate_ratio fc gc) isol mr cl rc fc gc
          \<and> calculate_network_score (calculate_ratio fc gc) isol mr cl rc fc gc \<le> 1"
    using isol mr cl rc by (intro network_score_bounds) simp_all
  have "network_analyze p = map_of
        [(''network_analysis_performed'', Flag True),
         (''followers_count'', Num (real_of_int fc)),
         (''following_count'', Num (real_of_int gc)),
         (''followers_to_following_ratio'', Num (calculate_ratio fc gc)),
         (''network_isolation_score'', Num isol),
         (''mutual_connection_ratio'', Num mr),
         (''clustering_coefficient'', Num cl),
         (''reciprocity'', Num rc),
         (''network_score'', Num (calculate_network_score (calculate_ratio fc gc) isol mr cl rc fc gc))]"
    unfolding network_analyze_def Let_def fc_def gc_def isol_def mr_def cl_def rc_def ..
  with assms isol mr cl rc ns show ?thesis
    by (auto simp: network_score_keys_def)
qed

lemma posting_regularity_bounds:
  assumes "analyze_posting_regularity ts = Inr x"
  shows "0 \<le> x \<and> x \<le> 1"
  using assms
  by (auto simp: analyze_posting_regularity_def bind_err_eq_Inr Let_def split: if_splits)

lemma sum_count_distinct:
  assumes "distinct ks"
  shows "sum_list (map (count_list xs) ks) \<le> length xs"
proof -
  have "sum_list (map (count_list xs) ks) = sum (count_list xs) (set ks)"
    using assms by (rule sum_list_distinct_conv_sum_set)
  also have "\<dots> \<le> sum (count_list xs) (set ks \<union> set xs)"
    by (intro sum_mono2) auto
  also have "\<dots> = length xs"
    by (intro sum_count_set) auto
  finally show ?thesis .
qed

lemma mod_window_inj:
  fixes a b s :: nat
  assumes "s \<le> a" "a < s + 8" "s \<le> b" "b < s + 8" "a mod 24 = b mod 24"
  shows "a = b"
proof -
  have aux: "x = y" if "x \<le> y" "y < x + 8" "x mod 24 = y mod 24" for x y :: nat
  proof -
    from that(3) have "y mod 24 = x mod 24" by (rule sym)
    then have "24 dvd (y - x)" by (rule iffD1 [OF mod_eq_dvd_iff_nat [OF that(1)]])
    moreover have "y - x < 24" using that(2) by linarith
    ultimately have "y - x = 0" by (meson dvd_imp_le not_less neq0_conv)
    with that(1) show ?thesis by linarith
  qed
  show ?thesis
  proof (cases "a \<le> b")
    case True
    moreover have "b < a + 8" using assms(1,4) by linarith
    ultimately show ?thesis using assms(5) by (rule aux)
  next
    case False
    then have "b \<le> a" by simp
    moreover have "a < b + 8" using assms(2,3) by linarith
    moreover have "b mod 24 = a mod 24" using assms(5) by (rule sym)
    ultimately have "b = a" by (rule aux)
    then show ?thesis by (rule sym)
  qed
qed

lemma window_hours_distinct: "distinct (map (\<lambda>h. h mod 24) [s ..< s + 8])"
proof -
  have "inj_on (\<lambda>h. h mod (24::nat)) {s ..< s + 8}"
  proof (rule inj_onI)
    fix a b :: nat
    assume "a \<in> {s ..< s + 8}" "b \<in> {s ..< s + 8}" "a mod 24 = b mod 24"
    then show "a = b" by (intro mod_window_inj [of s a b]) (simp_all only: atLeastLessThan_iff)
  qed
  then show ?thesis by (simp add: distinct_map)
qed

lemma window_posts_at_le: "window_posts_at hours s \<le> length hours"
proof -
  have "window_posts_at hours s
        = sum_list (map (count_list hours) (map (\<lambda>h. h mod 24) [s ..< s + 8]))"
    by (simp add: window_posts_at_def comp_def)
  also have "\<dots> \<le> length hours"
    using window_hours_distinct by (rule sum_count_distinct)
  finally show ?thesis .
qed

lemma fold_max_le:
  fixes w :: "nat \<Rightarrow> nat"
  assumes "a \<le> n" and "\<And>s. w s \<le> n"
  shows "fold (\<lambda>s acc. max acc (w s)) xs a \<le> n"
  using assms(1) by (induction xs arbitrary: a) (simp_all add: assms(2))

lemma max_window_posts_le: "max_window_posts hours \<le> length hours"
  unfolding max_window_posts_def by (rule fold_max_le) (simp_all add: window_posts_at_le)

lemma time_zone_consistency_bounds:
  "0 \<le> analyze_time_zone_consistency ts \<and> analyze_time_zone_consistency ts \<le> 1"
proof (cases "length ts < 5")
  case True
  then show ?thesis by (simp add: analyze_time_zone_consistency_def)
next
  case False
  then have "5 \<le> length ts" by simp
  then have "0 < length ts" by linarith
  moreover have "max_window_posts (map hour_of ts) \<le> length ts"
    using max_window_posts_le [of "map hour_of ts"] by simp
  ultimately show ?thesis
    using False by (simp add: analyze_time_zone_consistency_def Let_def divide_le_eq_1)
qed

lemma logistic_bounds: "0 \<le> 1 / (1 + exp (x :: real)) \<and> 1 / (1 + exp x) \<le> 1"
proof -
  have "0 < exp x" by simp
  then have pos: "0 < 1 + exp x" and "1 \<le> 1 + exp x" by linarith+
  then have "1 / (1 + exp x) \<le> 1" by (simp only: divide_le_eq_1_pos)
  moreover from pos have "0 \<le> 1 / (1 + exp x)" by simp
  ultimately show ?thesis by blast
qed

lemma engagement_rate_bounds:
  "0 \<le> calculate_engagement_rate posts \<and> calculate_engagement_rate posts \<le> 1"
  unfolding calculate_engagement_rate_def Let_def
  using logistic_bounds by (simp del: exp_le_cancel_iff)

lemma activity_weights_bounds:
  fixes a f r e t b :: real
  assumes "0 \<le> a" "a \<le> 1" "0 \<le> f" "f \<le> 1" "0 \<le> r" "r \<le> 1" "0 \<le> e" "e \<le> 1"
    "0 \<le> t" "t \<le> 1" "0 \<le> b" "b \<le> 1"
  shows "0 \<le> 0.15 * a + 0.2 * f + 0.15 * r + 0.25 * e + 0.1 * t + 0.15 * b
       \<and> 0.15 * a + 0.2 * f + 0.15 * r + 0.25 * e + 0.1 * t + 0.15 * b \<le> 1"
  using assms by (simp add: field_simps)

lemma activity_score_bounds:
  assumes "reg \<le> 1"
  shows "0 \<le> calculate_activity_score age ppd reg eng tz bursts
       \<and> calculate_activity_score age ppd reg eng tz bursts \<le> 1"
proof -
  define a where "a = max 0 (min 1 (1 - real_of_int age / 180))"
  define f where "f = (if ppd > 15 then min 1 ((ppd - 15) / 10)
             else if ppd < 0.05 then min 1 ((0.05 - ppd) / 0.05)
             else 0)"
  define r where "r = (if reg > 0.8 then reg else 0)"
  define e where "e = max 0 (min 1 (1 - eng * 10))"
  define t where "t = max 0 (min 1 (1 - tz))"
  define b where "b = min 1 (real bursts / 5)"
  have a: "0 \<le> a" "a \<le> 1" unfolding a_def by simp_all
  have f: "0 \<le> f" "f \<le> 1" unfolding f_def by simp_all
  have r: "0 \<le> r" "r \<le> 1" unfolding r_def using assms by simp_all
  have e: "0 \<le> e" "e \<le> 1" unfolding e_def by simp_all
  have t: "0 \<le> t" "t \<le> 1" unfolding t_def by simp_all
  have b: "0 \<le> b" "b \<le> 1" unfolding b_def by simp_all
  have "calculate_activity_score age ppd reg eng tz bursts
        = 0.15 * a + 0.2 * f + 0.15 * r + 0.25 * e + 0.1 * t + 0.15 * b"
    unfolding calculate_activity_score_def Let_def a_def f_def r_def e_def t_def b_def ..
  with activity_weights_bounds [OF a f r e t b] show ?thesis by (simp only:)
qed

lemma activity_defaults_scores:
  "k \<in> set activity_score_keys \<Longrightarrow> unit_score (activity_defaults k)"
  by (auto simp: activity_score_keys_def activity_defaults_def)

lemma activity_analyze_scores:
  assumes "activity_analyze lib now p = Inr m" and "k \<in> set activity_score_keys"
  shows "unit_score (m k)"
proof (cases "pd_posts p = []")
  case True
  with assms(1) have "m = activity_defaults" by (simp add: activity_analyze_def)
  with assms(2) show ?thesis by (simp add: activity_defaults_scores)
next
  case False
  define age where "age = (case pd_creation_date p of
                 None \<Rightarrow> 365
               | Some creation_date_str \<Rightarrow>
                   if creation_date_str = [] then 365
                   else (case parsed_account_age lib now creation_date_str of
                           Some days \<Rightarrow> days | None \<Rightarrow> 365))"
  define ppd where "ppd = calculate_posting_frequency (pd_posts p) age"
  define ts where "ts = collect_timestamps lib (pd_posts p)"
  define pat where "pat = (if ts \<noteq> []
              then bind_err (analyze_posting_regularity ts) (\<lambda>posting_regularity.
                   let time_zone_consistency = analyze_time_zone_consistency ts
                   in bind_err (detect_posting_bursts ts) (\<lambda>posting_bursts.
                        Inr (posting_regularity, time_zone_consistency, posting_bursts)))
              else Inr (0.5, 0.5, 0))"
  have unfolded: "activity_analyze lib now p =
      bind_err pat (\<lambda>(posting_regularity, time_zone_consistency, posting_bursts).
                let engagement_rate = calculate_engagement_rate (pd_posts p);
                    activity_score = calculate_activity_score age ppd
                       posting_regularity engagement_rate time_zone_consistency posting_bursts
                in Inr (map_of
                  [(''activity_analysis_performed'', Flag True),
                   (''account_age_days'', Num (real_of_int age)),
                   (''posts_per_day'', Num ppd),
                   (''posting_regularity'', Num posting_regularity),
                   (''time_zone_consistency'', Num time_zone_consistency),
                   (''engagement_rate'', Num engagement_rate),
                   (''posting_bursts'', Num (real posting_bursts)),
                   (''activity_score'', Num activity_score)]))"
    using False unfolding activity_analyze_def Let_def age_def ppd_def ts_def pat_def
    by (simp only: if_False)
  from assms(1) obtain reg tz bursts where pat: "pat = Inr (reg, tz, bursts)"
    and m: "m = map_of
                  [(''activity_analysis_performed'', Flag True),
                   (''account_age_days'', Num (real_of_int age)),
                   (''posts_per_day'', Num ppd),
                   (''posting_regularity'', Num reg),
                   (''time_zone_consistency'', Num tz),
                   (''engagement_rate'', Num (calculate_engagement_rate (pd_posts p))),
                   (''posting_bursts'', Num (real bursts)),
                   (''activity_score'', Num (calculate_activity_score age ppd reg
                       (calculate_engagement_rate (pd_posts p)) tz bursts))]"
    unfolding unfolded by (auto simp: bind_err_eq_Inr Let_def)
  have reg: "0 \<le> reg \<and> reg \<le> 1" and tz: "0 \<le> tz \<and> tz \<le> 1"
  proof -
    show "0 \<le> reg \<and> reg \<le> 1"
    proof (cases "ts = []")
      case True
      with pat show ?thesis by (simp add: pat_def)
    next
      case False
      with pat have "analyze_posting_regularity ts = Inr reg"
        by (auto simp: pat_def bind_err_eq_Inr Let_def)
      then show ?thesis by (rule posting_regularity_bounds)
    qed
    show "0 \<le> tz \<and> tz \<le> 1"
    proof (cases "ts = []")
      case True
      with pat show ?thesis by (simp add: pat_def)
    next
      case False
      with pat have "tz = analyze_time_zone_consistency ts"
        by (auto simp: pat_def bind_err_eq_Inr Let_def)
      then show ?thesis by (simp add: time_zone_consistency_bounds)
    qed
  qed
  have act: "0 \<le> calculate_activity_score age ppd reg (calculate_engagement_rate (pd_posts p)) tz bursts
     \<and> calculate_activity_score age ppd reg (calculate_engagement_rate (pd_posts p)) tz bursts \<le> 1"
    using reg by (intro activity_score_bounds) simp
  from assms(2) reg tz act engagement_rate_bounds [of "pd_posts p"] show ?thesis
    unfolding m by (auto simp: activity_score_keys_def)
qed

lemma profile_pic_score_bounds:
  assumes "q \<le> 1"
  shows "0 \<le> calculate_profile_pic_score dflt stock ai q
       \<and> calculate_profile_pic_score dflt stock ai q \<le> 1"
proof -
  define base :: real where "base = (let b0 = (0.3 :: real);
          b1 = (if dflt then b0 + 0.2 else b0);
          b2 = (if stock then b1 + 0.3 else b1)
      in (if ai then b2 + 0.4 else b2))"
  have "0 \<le> base" unfolding base_def Let_def by simp
  moreover have "0 \<le> (1 - q) * 0.2" using assms by simp
  ultimately have "0 \<le> base + (1 - q) * 0.2" by (rule add_nonneg_nonneg)
  moreover have "calculate_profile_pic_score dflt stock ai q = min 1.0 (base + (1 - q) * 0.2)"
    unfolding calculate_profile_pic_score_def base_def Let_def ..
  ultimately show ?thesis by (simp only: min_def) simp
qed

lemma quality_score_le:
  assumes "\<forall>seed. 0 \<le> random_after_seed lib seed \<and> random_after_seed lib seed < 1"
  shows "simulate_quality_score lib url \<le> 1"
proof -
  have "random_after_seed lib (md5 lib url mod 1000) < 1" using assms by blast
  then show ?thesis by (simp add: simulate_quality_score_def Let_def)
qed

lemma image_analyze_score:
  assumes "\<forall>seed. 0 \<le> random_after_seed lib seed \<and> random_after_seed lib seed < 1"
  shows "unit_score (image_analyze lib p ''profile_pic_score'')"
proof (cases "pd_profile_pic_url p = None \<or> pd_profile_pic_url p = Some []")
  case True
  then show ?thesis by (auto simp: image_analyze_def)
next
  case False
  then obtain url where url: "pd_profile_pic_url p = Some url" "url \<noteq> []" by auto
  show ?thesis
  proof (cases "is_default_profile_picture lib url")
    case True
    have "0 \<le> calculate_profile_pic_score True False False 0.5
          \<and> calculate_profile_pic_score True False False 0.5 \<le> 1"
      by (rule profile_pic_score_bounds) simp
    with True url show ?thesis by (simp add: image_analyze_def Let_def)
  next
    case False
    have "0 \<le> calculate_profile_pic_score False st ai (simulate_quality_score lib url)
          \<and> calculate_profile_pic_score False st ai (simulate_quality_score lib url) \<le> 1" for st ai
      by (rule profile_pic_score_bounds) (rule quality_score_le [OF assms])
    with False url show ?thesis by (simp add: image_analyze_def analyze_image_def Let_def)
  qed
qed

lemma decide_probability_bounds:
  assumes "decide model cf = Inr (prob, fake, imp)"
    and "\<forall>m v. model = Some m \<longrightarrow> 0 \<le> predict_proba m v \<and> predict_proba m v \<le> 1"
  shows "0 \<le> prob \<and> prob \<le> 1"
proof (cases model)
  case None
  with assms(1) have "heuristic_detection cf = Inr (prob, fake, imp)" by (simp add: decide_def)
  from heuristic_probability_range [OF this] show ?thesis by simp
next
  case (Some m)
  with assms(1) obtain v where "prob = predict_proba m v"
    by (auto simp: decide_def bind_err_eq_Inr Let_def)
  with assms(2) Some show ?thesis by simp
qed

lemma combined_features_scores:
  assumes cf: "combined_features lib clk p = Inr cf"
    and rnd: "\<forall>seed. 0 \<le> random_after_seed lib seed \<and> random_after_seed lib seed < 1"
    and k: "k \<in> set score_keys"
  shows "unit_score (cf k)"
proof -
  from k consider (content) "k \<in> set content_score_keys"
    | (activity) "k \<in> set activity_score_keys"
    | (image) "k = ''profile_pic_score''"
    | (network) "k \<in> set network_score_keys"
    by (auto simp: score_keys_def)
  then show ?thesis
  proof cases
    case content
    then have "k \<in> {''sentiment_score'', ''content_diversity'', ''suspicious_content_score''}"
      by (simp add: content_score_keys_def)
    from combined_content_key(1) [OF cf this] content show ?thesis
      by (simp add: content_analyze_scores)
  next
    case activity
    then have "k \<in> {''account_age_days'', ''posts_per_day'', ''posting_regularity'',
               ''time_zone_consistency'', ''engagement_rate'', ''posting_bursts'',
               ''activity_score''}"
      by (auto simp: activity_score_keys_def)
    from combined_activity_key [OF cf this] obtain fe act
      where act: "activity_analyze lib (now_activity clk) p = Inr act"
        and eq: "cf k = (case act k of Some v \<Rightarrow> Some v
                         | None \<Rightarrow> (fe ++ content_analyze lib p) k)"
      by blast
    from activity_analyze_scores [OF act activity] have u: "unit_score (act k)" .
    then obtain v where "act k = Some v" by (cases "act k") (simp_all add: unit_score_def)
    with eq u show ?thesis by simp
  next
    case image
    have "''profile_pic_score'' \<in> dom (image_analyze lib p)"
      using image_analyze_score [OF rnd, of p]
      by (cases "image_analyze lib p ''profile_pic_score''") (simp_all add: unit_score_def domIff)
    from combined_image_key [OF cf _ this] image image_analyze_score [OF rnd, of p]
    show ?thesis by (simp add: network_analyze_dom)
  next
    case network
    then have "k \<in> dom (network_analyze p)"
      by (auto simp: network_analyze_dom network_score_keys_def)
    from combined_network_key [OF cf this] network show ?thesis
      by (simp add: network_analyze_scores)
  qed
qed

text \<open>
  C2. For every profile, every score the analyzers produce lies in [0,1]: the sentiment,
  diversity and suspicious-content scores of the content analyzer; the posting regularity,
  time-zone consistency, engagement rate and activity score of the activity analyzer
  whenever it returns; the profile-picture score; the isolation score, mutual-connection
  ratio, clustering coefficient, reciprocity and network score of the network analyzer; the
  same thirteen entries of the merged feature map; and the final probability. The random
  draw of the simulated image inspection is taken in [0,1), as \<open>random.random()\<close> documents,
  and a configured classifier is taken to return probabilities in [0,1].
\<close>

theorem scores_in_unit_interval:
  assumes rnd: "\<forall>seed. 0 \<le> random_after_seed lib seed \<and> random_after_seed lib seed < 1"
    and clf: "\<forall>m v. model = Some m \<longrightarrow> 0 \<le> predict_proba m v \<and> predict_proba m v \<le> 1"
  shows "(\<forall>k \<in> set content_score_keys. unit_score (content_analyze lib p k))
     \<and> (\<forall>m. activity_analyze lib now p = Inr m \<longrightarrow>
            (\<forall>k \<in> set activity_score_keys. unit_score (m k)))
     \<and> unit_score (image_analyze lib p ''profile_pic_score'')
     \<and> (\<forall>k \<in> set network_score_keys. unit_score (network_analyze p k))
     \<and> (\<forall>cf. combined_features lib clk p = Inr cf \<longrightarrow>
            (\<forall>k \<in> set score_keys. unit_score (cf k)))
     \<and> (\<forall>r. analyze_profile lib clk model p = Inr r \<longrightarrow>
            0 \<le> probability r \<and> probability r \<le> 1)"
proof (intro conjI allI impI ballI)
  fix k assume "k \<in> set content_score_keys"
  then show "unit_score (content_analyze lib p k)" by (rule content_analyze_scores)
next
  fix m k assume "activity_analyze lib now p = Inr m" "k \<in> set activity_score_keys"
  then show "unit_score (m k)" by (rule activity_analyze_scores)
next
  show "unit_score (image_analyze lib p ''profile_pic_score'')"
    using rnd by (rule image_analyze_score)
next
  fix k assume "k \<in> set network_score_keys"
  then show "unit_score (network_analyze p k)" by (rule network_analyze_scores)
next
  fix cf k assume "combined_features lib clk p = Inr cf" "k \<in> set score_keys"
  then show "unit_score (cf k)" using rnd by (intro combined_features_scores)
next
  fix r assume "analyze_profile lib clk model p = Inr r"
  then obtain cf where "decide model cf = Inr (probability r, is_fake r, feature_importance r)"
    by (rule analyze_profile_Inr)
  from decide_probability_bounds [OF this clf]
  show "0 \<le> probability r" and "probability r \<le> 1" by simp_all
qed

theorem scores_in_unit_interval_witness:
  "(\<forall>seed. 0 \<le> random_after_seed sample_lib seed \<and> random_after_seed sample_lib seed < 1)
   \<and> (\<forall>v. 0 \<le> predict_proba sample_model v \<and> predict_proba sample_model v \<le> 1)
   \<and> unit_score (network_analyze empty_profile ''network_score'')
   \<and> unit_score (image_analyze sample_lib empty_profile ''profile_pic_score'')
   \<and> (\<exists>r. analyze_profile sample_lib sample_clock (Some sample_model) empty_profile = Inr r
          \<and> 0 \<le> probability r \<and> probability r \<le> 1)"
proof -
  have rnd: "\<forall>seed. 0 \<le> random_after_seed sample_lib seed \<and> random_after_seed sample_lib seed < 1"
    by (simp add: sample_lib_def)
  have clf: "\<forall>m v. Some sample_model = Some m \<longrightarrow> 0 \<le> predict_proba m v \<and> predict_proba m v \<le> 1"
    by (simp add: sample_model_def)
  have nt: "collect_timestamps sample_lib (pd_posts empty_profile) = []"
    by (rule no_posts_no_timestamps) (simp add: empty_profile_def)
  from analyze_profile_total [OF nt] obtain r
    where r: "analyze_profile sample_lib sample_clock (Some sample_model) empty_profile = Inr r"
    by blast
  note inst = scores_in_unit_interval [OF rnd clf, of empty_profile "now_activity sample_clock" sample_clock]
  from inst have "unit_score (network_analyze empty_profile ''network_score'')"
    by (simp add: network_score_keys_def)
  moreover from inst have "unit_score (image_analyze sample_lib empty_profile ''profile_pic_score'')"
    by simp
  moreover from inst r have "0 \<le> probability r \<and> probability r \<le> 1"
    by blast
  moreover have "\<forall>v. 0 \<le> predict_proba sample_model v \<and> predict_proba sample_model v \<le> 1"
    by (simp add: sample_model_def)
  ultimately show ?thesis using rnd r by blast
qed

end
